theory Spec2Isabelle
  imports Complex_Main
begin

section \<open>Errors and results\<close>

text \<open>
  The exceptions the Python code (and the libraries it calls) can raise, as values.
  A call that can raise returns \<open>error + 'a\<close>, with \<open>Inl\<close> for the exception.
  The specification's taxonomy names map onto them as follows: \<open>IndexOutOfRange\<close>
  is numpy's \<open>IndexError\<close> (numpy raises \<open>OverflowError\<close> instead for some
  indices that do not fit its index type), \<open>ShapeMismatch\<close> is torch's
  \<open>RuntimeError\<close>, \<open>InvalidConfiguration\<close> is whatever a constructor raises
  (\<open>ZeroDivisionError\<close>, \<open>ValueError\<close>, \<open>RuntimeError\<close>).
\<close>

datatype error =
  ZeroDivisionError | ValueError | IndexError | OverflowError | RuntimeError | AttributeError

definition bind_res :: "error + 'a \<Rightarrow> ('a \<Rightarrow> error + 'b) \<Rightarrow> error + 'b" where
  "bind_res r f = (case r of Inl e \<Rightarrow> Inl e | Inr v \<Rightarrow> f v)"

section \<open>preprocess.py: annotations and the multi-hot encoder\<close>

text \<open>
  An annotation is the dictionary \<^verbatim>\<open>{"id": ..., "label_ids": [...]}\<close> built by
  \<^verbatim>\<open>get_annotations\<close>; the label ids are a Python list of unbounded integers.
\<close>

record Annotation =
  id_ano :: string
  label_ids :: "int list"

type_synonym Annotations = "Annotation list"

text \<open>
  \<^verbatim>\<open>np.zeros(size)\<close>: a vector of \<open>size\<close> zeros; numpy raises \<open>ValueError\<close> for
  a negative dimension. The entries are the floats 0.0 and 1.0, kept here as the
  naturals 0 and 1.
\<close>

definition np_zeros :: "int \<Rightarrow> error + nat list" where
  "np_zeros sz = (if sz < 0 then Inl ValueError else Inr (replicate (nat sz) 0))"

text \<open>
  The exception numpy raises for a Python integer \<open>l\<close> used as an index outside
  the array: an integer in \<open>[2\<^sup>6\<^sup>3, 2\<^sup>6\<^sup>4)\<close> does not fit the signed index
  type but is taken for an unsigned 64-bit value, whose conversion raises
  \<open>OverflowError\<close>; every other index out of range raises \<open>IndexError\<close>.
\<close>

definition index_error :: "int \<Rightarrow> error" where
  "index_error l = (if 2 ^ 63 \<le> l \<and> l < 2 ^ 64 then OverflowError else IndexError)"

text \<open>
  \<^verbatim>\<open>base[l] = v\<close> on a one-dimensional numpy array of length \<open>n\<close>: an index in
  \<open>[-n, n)\<close> is accepted, a negative one counting from the end; any other index
  raises the exception above. (An array that exists has fewer than \<open>2\<^sup>6\<^sup>3\<close>
  entries, so an index that numpy cannot convert is never within its range.)
\<close>

definition np_setitem :: "nat list \<Rightarrow> int \<Rightarrow> nat \<Rightarrow> error + nat list" where
  "np_setitem base l v =
     (let n = int (length base) in
      if l < - n \<or> n \<le> l then Inl (index_error l)
      else Inr (base[nat (if l < 0 then l + n else l) := v]))"

text \<open>The inner loop of \<^verbatim>\<open>to_multi_hot\<close>: \<^verbatim>\<open>for l in ano["label_ids"]: base[l] = 1\<close>.\<close>

fun mark_labels :: "nat list \<Rightarrow> int list \<Rightarrow> error + nat list" where
  "mark_labels base [] = Inr base"
| "mark_labels base (l # ls) =
     (case np_setitem base l 1 of
        Inl e \<Rightarrow> Inl e
      | Inr base' \<Rightarrow> mark_labels base' ls)"

text \<open>
  One pass of the outer loop body: \<^verbatim>\<open>base = np.zeros(size)\<close>, the inner loop, and
  the row that is stored with \<^verbatim>\<open>rows[i] = base\<close>.
\<close>

definition multi_hot_row :: "int \<Rightarrow> Annotation \<Rightarrow> error + nat list" where
  "multi_hot_row sz ano =
     (case np_zeros sz of
        Inl e \<Rightarrow> Inl e
      | Inr base \<Rightarrow> mark_labels base (label_ids ano))"

fun fill_rows :: "int \<Rightarrow> Annotations \<Rightarrow> error + nat list list" where
  "fill_rows sz [] = Inr []"
| "fill_rows sz (ano # rest) =
     (case multi_hot_row sz ano of
        Inl e \<Rightarrow> Inl e
      | Inr row \<Rightarrow>
          (case fill_rows sz rest of
             Inl e \<Rightarrow> Inl e
           | Inr rows \<Rightarrow> Inr (row # rows)))"

text \<open>
  \<^verbatim>\<open>to_multi_hot(annotations, size)\<close>: the matrix \<^verbatim>\<open>rows\<close> is allocated first
  (so a negative size fails even for no annotation), then filled row by row; the
  first exception ends the call.
\<close>

definition to_multi_hot :: "Annotations \<Rightarrow> int \<Rightarrow> error + nat list list" where
  "to_multi_hot annotations sz =
     (case np_zeros sz of
        Inl e \<Rightarrow> Inl e
      | Inr _ \<Rightarrow> fill_rows sz annotations)"

text \<open>The positions of a vector that hold 1: the decoding of a multi-hot vector.\<close>

definition one_positions :: "nat list \<Rightarrow> nat list" where
  "one_positions v = filter (\<lambda>i. v ! i = 1) [0..<length v]"

text \<open>
  The invariant of a multi-hot vector in closed form: the positions that the
  label ids select (a negative id \<open>l\<close> in range selects \<open>size + l\<close>, which is
  \<open>l mod size\<close>), and the vector holding 1 exactly there.
\<close>

definition positions :: "int \<Rightarrow> int list \<Rightarrow> nat set" where
  "positions sz ls = (\<lambda>l. nat (l mod sz)) ` set ls"

definition indicator_row :: "int \<Rightarrow> int list \<Rightarrow> nat list" where
  "indicator_row sz ls = map (\<lambda>i. if i \<in> positions sz ls then 1 else 0) [0..<nat sz]"

definition ids_in_range :: "int \<Rightarrow> int list \<Rightarrow> bool" where
  "ids_in_range sz ls = list_all (\<lambda>l. - sz \<le> l \<and> l < sz) ls"

section \<open>preprocess.py: the evaluator\<close>

text \<open>
  \<^verbatim>\<open>sklearn.metrics.fbeta_score(y_true, y_pred, beta)\<close> on two binary vectors, with
  its defaults (\<^verbatim>\<open>average="binary"\<close>, \<^verbatim>\<open>pos_label=1\<close>). The library counts the
  true positives, the predicted positives and the actual positives, divides with
  a zero denominator giving 0, and combines precision and recall; vectors of
  different lengths are a \<open>ValueError\<close>. The floating-point arithmetic is
  idealised to the reals.
\<close>

definition tp_sum :: "nat list \<Rightarrow> nat list \<Rightarrow> nat" where
  "tp_sum y_true y_pred = length (filter (\<lambda>(t, p). t = 1 \<and> p = 1) (zip y_true y_pred))"

definition pos_sum :: "nat list \<Rightarrow> nat" where
  "pos_sum y = length (filter (\<lambda>t. t = 1) y)"

definition prf_divide :: "nat \<Rightarrow> nat \<Rightarrow> real" where
  "prf_divide numerator denominator =
     (if denominator = 0 then 0 else real numerator / real denominator)"

definition fbeta_score :: "nat list \<Rightarrow> nat list \<Rightarrow> real \<Rightarrow> error + real" where
  "fbeta_score y_true y_pred beta =
     (if length y_true \<noteq> length y_pred then Inl ValueError
      else
        let beta2 = beta * beta;
            precision = prf_divide (tp_sum y_true y_pred) (pos_sum y_pred);
            recall = prf_divide (tp_sum y_true y_pred) (pos_sum y_true);
            denom = beta2 * precision + recall;
            denom' = (if denom = 0 then 1 else denom)
        in Inr ((1 + beta2) * precision * recall / denom'))"

text \<open>
  \<^verbatim>\<open>np.array(scores).mean()\<close>: the mean of no score at all is numpy's \<open>nan\<close>
  (with a warning, not an exception), so the result type has a value for it.
\<close>

datatype np_float = NaN | Val real

definition np_mean :: "real list \<Rightarrow> np_float" where
  "np_mean scores =
     (if scores = [] then NaN else Val (sum_list scores / real (length scores)))"

text \<open>
  The loop of \<^verbatim>\<open>evaluate\<close> over \<^verbatim>\<open>zip(to_multi_hot(pred), to_multi_hot(gt))\<close>: each
  pair \<open>(p, g)\<close> is scored with \<^verbatim>\<open>fbeta_score(g, p, beta=2)\<close> and the score is
  appended. Python's \<^verbatim>\<open>zip\<close> stops at the end of the shorter sequence, as HOL's
  \<open>zip\<close> does.
\<close>

fun score_pairs :: "(nat list \<times> nat list) list \<Rightarrow> error + real list" where
  "score_pairs [] = Inr []"
| "score_pairs ((p, g) # rest) =
     (case fbeta_score g p 2 of
        Inl e \<Rightarrow> Inl e
      | Inr score \<Rightarrow>
          (case score_pairs rest of
             Inl e \<Rightarrow> Inl e
           | Inr scores \<Rightarrow> Inr (score # scores)))"

definition evaluate :: "Annotations \<Rightarrow> Annotations \<Rightarrow> error + np_float" where
  "evaluate pred gt =
     (case to_multi_hot pred 3474 of
        Inl e \<Rightarrow> Inl e
      | Inr ps \<Rightarrow>
          (case to_multi_hot gt 3474 of
             Inl e \<Rightarrow> Inl e
           | Inr gs \<Rightarrow>
               (case score_pairs (zip ps gs) of
                  Inl e \<Rightarrow> Inl e
                | Inr scores \<Rightarrow> Inr (np_mean scores))))"

text \<open>
  The F-beta score as the specification writes it, from the counts of true
  positives, false positives and false negatives, with \<open>\<beta>\<^sup>2 = 4\<close>:
  \<open>(1+\<beta>\<^sup>2)\<cdot>TP / ((1+\<beta>\<^sup>2)\<cdot>TP + \<beta>\<^sup>2\<cdot>FN + FP)\<close>, and 0 when the denominator is 0.
\<close>

definition spec_fbeta2 :: "nat list \<Rightarrow> nat list \<Rightarrow> real" where
  "spec_fbeta2 p g =
     (let tp = real (tp_sum g p);
          fp = real (pos_sum p) - tp;
          fn = real (pos_sum g) - tp;
          d = 5 * tp + 4 * fn + fp
      in if d = 0 then 0 else 5 * tp / d)"

section \<open>preprocess.py: the k-fold helper\<close>

text \<open>
  \<^verbatim>\<open>annotations[i]\<close> on a Python list: an index in \<open>[-n, n)\<close> is accepted, a
  negative one counting from the end; any other raises \<open>IndexError\<close>.
\<close>

definition py_getitem :: "'a list \<Rightarrow> int \<Rightarrow> error + 'a" where
  "py_getitem xs i =
     (let n = int (length xs) in
      if i < - n \<or> n \<le> i then Inl IndexError
      else Inr (xs ! nat (if i < 0 then i + n else i)))"

text \<open>The comprehension \<^verbatim>\<open>[annotations[i] for i in test]\<close>.\<close>

fun select_rows :: "'a list \<Rightarrow> int list \<Rightarrow> error + 'a list" where
  "select_rows xs [] = Inr []"
| "select_rows xs (i # rest) =
     (case py_getitem xs i of
        Inl e \<Rightarrow> Inl e
      | Inr x \<Rightarrow>
          (case select_rows xs rest of
             Inl e \<Rightarrow> Inl e
           | Inr ys \<Rightarrow> Inr (x # ys)))"

text \<open>
  The comprehension over the folds of the splitter: for each pair
  \<open>(train, test)\<close> the source builds both components from \<open>test\<close>.
\<close>

fun build_folds :: "'a list \<Rightarrow> (int list \<times> int list) list \<Rightarrow> error + ('a list \<times> 'a list) list" where
  "build_folds xs [] = Inr []"
| "build_folds xs ((train, test) # rest) =
     (case select_rows xs test of
        Inl e \<Rightarrow> Inl e
      | Inr first \<Rightarrow>
          (case select_rows xs test of
             Inl e \<Rightarrow> Inl e
           | Inr second \<Rightarrow>
               (case build_folds xs rest of
                  Inl e \<Rightarrow> Inl e
                | Inr folds \<Rightarrow> Inr ((first, second) # folds))))"

text \<open>
  \<^verbatim>\<open>MultilabelStratifiedKFold(n_splits, random_state=0).split(indecies, multi_hot)\<close>
  belongs to the library \<^verbatim>\<open>iterstrat\<close>; it is a parameter of the model: any function
  from the number of splits, the indices and the multi-hot matrix to an exception
  or a list of \<open>(train, test)\<close> index lists.
\<close>

type_synonym splitter = "int \<Rightarrow> int list \<Rightarrow> nat list list \<Rightarrow> error + (int list \<times> int list) list"

definition kfold :: "splitter \<Rightarrow> int \<Rightarrow> Annotations \<Rightarrow> error + (Annotations \<times> Annotations) list" where
  "kfold mskf_split n_splits annotations =
     (case to_multi_hot annotations 3474 of
        Inl e \<Rightarrow> Inl e
      | Inr multi_hot \<Rightarrow>
          (let indecies = map int [0..<length multi_hot] in
           case mskf_split n_splits indecies multi_hot of
             Inl e \<Rightarrow> Inl e
           | Inr splits \<Rightarrow> build_folds annotations splits))"

text \<open>
  A splitter to run the helper on: two folds over two samples, whatever the
  arguments.
\<close>

definition two_fold_split :: splitter where
  "two_fold_split n_splits indecies multi_hot = Inr [([1], [0]), ([0], [1])]"

section \<open>models.py: layers of the library\<close>

text \<open>
  The layers of \<^verbatim>\<open>torch.nn\<close> that the modules are built from, as configuration
  values. \<open>Conv2d\<close> carries, in the order of its constructor: in_channels,
  out_channels, kernel_size, padding, dilation, stride, groups, bias.
  \<open>MaxPool2d\<close> and \<open>AvgPool2d\<close> carry kernel_size and stride.
\<close>

datatype nn_layer =
    Conv2d int int int int int int int bool
  | BatchNorm2d int
  | ReLU
  | Sigmoid
  | AdaptiveAvgPool2d int
  | MaxPool2d int int
  | AvgPool2d int int

text \<open>
  The checks of the library's constructors: \<^verbatim>\<open>nn.Conv2d\<close> raises \<open>ValueError\<close>
  unless \<open>groups\<close> is positive and divides both channel counts, and allocating a
  weight with a negative dimension raises \<open>RuntimeError\<close>. No constructor checks
  anything else; in particular none compares a channel count with a reduction
  factor.
\<close>

definition Conv2d_init ::
    "int \<Rightarrow> int \<Rightarrow> int \<Rightarrow> int \<Rightarrow> int \<Rightarrow> int \<Rightarrow> int \<Rightarrow> bool \<Rightarrow> error + nn_layer" where
  "Conv2d_init in_channels out_channels kernel_size padding dilation strd groups bias =
     (if groups \<le> 0 then Inl ValueError
      else if in_channels mod groups \<noteq> 0 then Inl ValueError
      else if out_channels mod groups \<noteq> 0 then Inl ValueError
      else if in_channels < 0 \<or> out_channels < 0 \<or> kernel_size < 0 then Inl RuntimeError
      else Inr (Conv2d in_channels out_channels kernel_size padding dilation strd groups bias))"

definition BatchNorm2d_init :: "int \<Rightarrow> error + nn_layer" where
  "BatchNorm2d_init num_features =
     (if num_features < 0 then Inl RuntimeError else Inr (BatchNorm2d num_features))"

section \<open>models.py: construction of the modules\<close>

record ConvBR2d =
  conv :: nn_layer
  bn :: nn_layer
  is_activation :: bool

definition ConvBR2d_init ::
    "int \<Rightarrow> int \<Rightarrow> int \<Rightarrow> int \<Rightarrow> int \<Rightarrow> int \<Rightarrow> int \<Rightarrow> bool \<Rightarrow> error + ConvBR2d" where
  "ConvBR2d_init in_channels out_channels kernel_size padding dilation strd groups is_act =
     (case Conv2d_init in_channels out_channels kernel_size padding dilation strd groups False of
        Inl e \<Rightarrow> Inl e
      | Inr c \<Rightarrow>
          (case BatchNorm2d_init out_channels of
             Inl e \<Rightarrow> Inl e
           | Inr b \<Rightarrow> Inr \<lparr>conv = c, bn = b, is_activation = is_act\<rparr>))"

text \<open>
  \<^verbatim>\<open>CSEModule.__init__\<close>: the \<^verbatim>\<open>nn.Sequential\<close> held in \<^verbatim>\<open>self.se\<close>. The only
  arithmetic on the two arguments is the floor division
  \<^verbatim>\<open>in_channels // reduction\<close>, which raises \<open>ZeroDivisionError\<close> for a zero
  reduction; Python's \<^verbatim>\<open>//\<close> on integers is HOL's \<open>div\<close> on \<open>int\<close>.
\<close>

record CSEModule =
  se_layers :: "nn_layer list"

definition CSEModule_init :: "int \<Rightarrow> int \<Rightarrow> error + CSEModule" where
  "CSEModule_init in_channels reduction =
     (if reduction = 0 then Inl ZeroDivisionError
      else
        case Conv2d_init in_channels (in_channels div reduction) 1 0 1 1 1 True of
          Inl e \<Rightarrow> Inl e
        | Inr squeeze \<Rightarrow>
            (case Conv2d_init (in_channels div reduction) in_channels 1 0 1 1 1 True of
               Inl e \<Rightarrow> Inl e
             | Inr excite \<Rightarrow>
                 Inr \<lparr>se_layers = [AdaptiveAvgPool2d 1, squeeze, ReLU, excite, Sigmoid]\<rparr>))"

text \<open>The argument \<^verbatim>\<open>pool: t.Literal["max", "avg"]\<close>.\<close>

datatype pool_kind = PoolMax | PoolAvg

text \<open>
  \<^verbatim>\<open>SENextBottleneck\<close>: the attributes \<^verbatim>\<open>shortcut\<close> and \<^verbatim>\<open>pool\<close> exist only when
  the constructor's conditions hold, so they are optional fields.
\<close>

record SENextBottleneck =
  conv1 :: ConvBR2d
  conv2 :: ConvBR2d
  conv3 :: ConvBR2d
  se :: CSEModule
  stride :: int
  is_shortcut :: bool
  shortcut :: "ConvBR2d option"
  pool :: "nn_layer option"

definition SENextBottleneck_init ::
    "int \<Rightarrow> int \<Rightarrow> int \<Rightarrow> int \<Rightarrow> int \<Rightarrow> pool_kind \<Rightarrow> bool \<Rightarrow> error + SENextBottleneck" where
  "SENextBottleneck_init in_channels out_channels strd groups reduction pool_arg is_sc =
     (if groups = 0 then Inl ZeroDivisionError
      else
        let mid_channels = groups * (out_channels div 2 div groups) in
        case ConvBR2d_init in_channels mid_channels 1 0 1 1 1 True of
          Inl e \<Rightarrow> Inl e
        | Inr c1 \<Rightarrow>
        (case ConvBR2d_init mid_channels mid_channels 3 1 1 1 groups True of
          Inl e \<Rightarrow> Inl e
        | Inr c2 \<Rightarrow>
        (case ConvBR2d_init mid_channels out_channels 1 0 1 1 1 False of
          Inl e \<Rightarrow> Inl e
        | Inr c3 \<Rightarrow>
        (case CSEModule_init out_channels reduction of
          Inl e \<Rightarrow> Inl e
        | Inr attend \<Rightarrow>
        (case (if is_sc then map_sum (\<lambda>e. e) Some (ConvBR2d_init in_channels out_channels 1 0 1 1 1 False)
               else Inr None) of
          Inl e \<Rightarrow> Inl e
        | Inr sc \<Rightarrow>
            Inr \<lparr>conv1 = c1, conv2 = c2, conv3 = c3, se = attend, stride = strd,
                 is_shortcut = is_sc, shortcut = sc,
                 pool = (if strd > 1
                         then Some (case pool_arg of
                                      PoolMax \<Rightarrow> MaxPool2d strd strd
                                    | PoolAvg \<Rightarrow> AvgPool2d strd strd)
                         else None)\<rparr>)))))"

text \<open>
  \<^verbatim>\<open>SEResNeXt.__init__\<close>: the initial \<^verbatim>\<open>ConvBR2d\<close>, then one bottleneck per
  \<open>i\<close> in \<^verbatim>\<open>range(depth)\<close>, built in order by the dictionary comprehension, each
  with the default stride 1, reduction 16, max pooling and no shortcut. The
  expressions \<^verbatim>\<open>diff*(i)//depth\<close> and \<^verbatim>\<open>width // depth\<close> are evaluated only inside
  the comprehension, where \<open>depth\<close> is at least 1.
\<close>

record SEResNeXt =
  in_conv :: ConvBR2d
  layer :: "SENextBottleneck list"

fun make_layers :: "int \<Rightarrow> int \<Rightarrow> int \<Rightarrow> int list \<Rightarrow> error + SENextBottleneck list" where
  "make_layers w diff depth [] = Inr []"
| "make_layers w diff depth (i # rest) =
     (case SENextBottleneck_init (w + diff * i div depth) (w + diff * (i + 1) div depth)
             1 (w div depth) 16 PoolMax False of
        Inl e \<Rightarrow> Inl e
      | Inr b \<Rightarrow>
          (case make_layers w diff depth rest of
             Inl e \<Rightarrow> Inl e
           | Inr bs \<Rightarrow> Inr (b # bs)))"

definition py_range :: "int \<Rightarrow> int list" where
  "py_range n = map int [0..<nat n]"

definition SEResNeXt_init :: "int \<Rightarrow> int \<Rightarrow> int \<Rightarrow> int \<Rightarrow> error + SEResNeXt" where
  "SEResNeXt_init in_channels out_channels depth w =
     (case ConvBR2d_init in_channels w 1 0 1 1 1 False of
        Inl e \<Rightarrow> Inl e
      | Inr ic \<Rightarrow>
          (let diff = \<bar>out_channels - w\<bar> in
           case make_layers w diff depth (py_range depth) of
             Inl e \<Rightarrow> Inl e
           | Inr bs \<Rightarrow> Inr \<lparr>in_conv = ic, layer = bs\<rparr>))"

text \<open>
  The channel counts a constructed bottleneck consumes and produces: the
  in_channels of its first convolution and the out_channels of its last.
\<close>

fun conv_in_channels :: "nn_layer \<Rightarrow> int" where
  "conv_in_channels (Conv2d i _ _ _ _ _ _ _) = i"
| "conv_in_channels _ = 0"

fun conv_out_channels :: "nn_layer \<Rightarrow> int" where
  "conv_out_channels (Conv2d _ out _ _ _ _ _ _) = out"
| "conv_out_channels _ = 0"

definition block_in_channels :: "SENextBottleneck \<Rightarrow> int" where
  "block_in_channels b = conv_in_channels (conv (conv1 b))"

definition block_out_channels :: "SENextBottleneck \<Rightarrow> int" where
  "block_out_channels b = conv_out_channels (conv (conv3 b))"

text \<open>
  The channel schedule of a constructed backbone: for every block, the pair of
  the channel counts it consumes and produces. \<open>SEResNeXt_schedule\<close> is the
  schedule of the backbone that the constructor returns for a configuration.
\<close>

definition channel_schedule :: "SEResNeXt \<Rightarrow> (int \<times> int) list" where
  "channel_schedule m = map (\<lambda>b. (block_in_channels b, block_out_channels b)) (layer m)"

definition SEResNeXt_schedule :: "int \<Rightarrow> int \<Rightarrow> int \<Rightarrow> int \<Rightarrow> error + (int \<times> int) list" where
  "SEResNeXt_schedule in_channels out_channels depth w =
     map_sum id channel_schedule (SEResNeXt_init in_channels out_channels depth w)"

section \<open>models.py: the forward passes\<close>

text \<open>
  What the forward passes call in the library, as a record of operations over
  an arbitrary tensor type \<open>'t\<close>: running one layer, the operators \<^verbatim>\<open>+\<close> and
  \<^verbatim>\<open>*\<close> on tensors, \<^verbatim>\<open>F.relu\<close> and \<^verbatim>\<open>F.avg_pool2d\<close>. Every one of them can
  raise. The forward passes below are written once, over any such record; the
  diagnostic \<^verbatim>\<open>print\<close> calls are left out.
\<close>

record 't backend =
  run_layer :: "nn_layer \<Rightarrow> 't \<Rightarrow> error + 't"
  tensor_add :: "'t \<Rightarrow> 't \<Rightarrow> error + 't"
  tensor_mul :: "'t \<Rightarrow> 't \<Rightarrow> error + 't"
  F_relu :: "'t \<Rightarrow> error + 't"
  F_avg_pool2d :: "'t \<Rightarrow> int \<Rightarrow> int \<Rightarrow> error + 't"

text \<open>\<^verbatim>\<open>nn.Sequential\<close>: the layers in order.\<close>

fun Sequential_forward :: "'t backend \<Rightarrow> nn_layer list \<Rightarrow> 't \<Rightarrow> error + 't" where
  "Sequential_forward B [] x = Inr x"
| "Sequential_forward B (l # ls) x =
     (case run_layer B l x of
        Inl e \<Rightarrow> Inl e
      | Inr y \<Rightarrow> Sequential_forward B ls y)"

definition ConvBR2d_forward :: "'t backend \<Rightarrow> ConvBR2d \<Rightarrow> 't \<Rightarrow> error + 't" where
  "ConvBR2d_forward B m x =
     (case run_layer B (conv m) x of
        Inl e \<Rightarrow> Inl e
      | Inr y \<Rightarrow>
          (case run_layer B (bn m) y of
             Inl e \<Rightarrow> Inl e
           | Inr z \<Rightarrow> (if is_activation m then run_layer B ReLU z else Inr z)))"

definition CSEModule_forward :: "'t backend \<Rightarrow> CSEModule \<Rightarrow> 't \<Rightarrow> error + 't" where
  "CSEModule_forward B m x =
     (case Sequential_forward B (se_layers m) x of
        Inl e \<Rightarrow> Inl e
      | Inr gate \<Rightarrow> tensor_mul B x gate)"

text \<open>
  \<^verbatim>\<open>SENextBottleneck.forward\<close>, statement by statement. Reading an attribute that
  the constructor did not set raises \<open>AttributeError\<close>.
\<close>

definition SENextBottleneck_forward :: "'t backend \<Rightarrow> SENextBottleneck \<Rightarrow> 't \<Rightarrow> error + 't" where
  "SENextBottleneck_forward B m x =
     (case ConvBR2d_forward B (conv1 m) x of
        Inl e \<Rightarrow> Inl e
      | Inr s1 \<Rightarrow>
     (case ConvBR2d_forward B (conv2 m) s1 of
        Inl e \<Rightarrow> Inl e
      | Inr s2 \<Rightarrow>
     (case (if stride m > 1
            then (case pool m of None \<Rightarrow> Inl AttributeError | Some p \<Rightarrow> run_layer B p s2)
            else Inr s2) of
        Inl e \<Rightarrow> Inl e
      | Inr s3 \<Rightarrow>
     (case ConvBR2d_forward B (conv3 m) s3 of
        Inl e \<Rightarrow> Inl e
      | Inr s4 \<Rightarrow>
     (case CSEModule_forward B (se m) s4 of
        Inl e \<Rightarrow> Inl e
      | Inr s \<Rightarrow>
     (case (if is_shortcut m
            then (case (if stride m > 1 then F_avg_pool2d B x (stride m) (stride m) else Inr x) of
                    Inl e \<Rightarrow> Inl e
                  | Inr x1 \<Rightarrow>
                      (case shortcut m of
                         None \<Rightarrow> Inl AttributeError
                       | Some sc \<Rightarrow> ConvBR2d_forward B sc x1))
            else Inr x) of
        Inl e \<Rightarrow> Inl e
      | Inr x2 \<Rightarrow>
     (case tensor_add B x2 s of
        Inl e \<Rightarrow> Inl e
      | Inr x3 \<Rightarrow> F_relu B x3)))))))"

fun blocks_forward :: "'t backend \<Rightarrow> SENextBottleneck list \<Rightarrow> 't \<Rightarrow> error + 't" where
  "blocks_forward B [] x = Inr x"
| "blocks_forward B (b # bs) x =
     (case SENextBottleneck_forward B b x of
        Inl e \<Rightarrow> Inl e
      | Inr y \<Rightarrow> blocks_forward B bs y)"

definition SEResNeXt_forward :: "'t backend \<Rightarrow> SEResNeXt \<Rightarrow> 't \<Rightarrow> error + 't" where
  "SEResNeXt_forward B m x =
     (case ConvBR2d_forward B (in_conv m) x of
        Inl e \<Rightarrow> Inl e
      | Inr y \<Rightarrow> blocks_forward B (layer m) y)"

text \<open>
  The expression \<^verbatim>\<open>SENextBottleneck(...)(x)\<close>: construct a block, then run it.
\<close>

definition SENextBottleneck_call ::
    "'t backend \<Rightarrow> int \<Rightarrow> int \<Rightarrow> int \<Rightarrow> int \<Rightarrow> int \<Rightarrow> pool_kind \<Rightarrow> bool \<Rightarrow> 't \<Rightarrow> error + 't" where
  "SENextBottleneck_call B in_channels out_channels strd groups reduction pool_arg is_sc x =
     (case SENextBottleneck_init in_channels out_channels strd groups reduction pool_arg is_sc of
        Inl e \<Rightarrow> Inl e
      | Inr m \<Rightarrow> SENextBottleneck_forward B m x)"

subsection \<open>The forward pass as the specification composes it\<close>

text \<open>
  The specification's steps 1 to 7, as a composition: the main branch
  \<open>attend(expand(pool_if_stride>1(transform(compress(x)))))\<close>, the shortcut branch,
  and \<open>relu(shortcut_branch + main)\<close>.
\<close>

definition pool_if_stride :: "'t backend \<Rightarrow> SENextBottleneck \<Rightarrow> 't \<Rightarrow> error + 't" where
  "pool_if_stride B m s =
     (if stride m > 1
      then (case pool m of None \<Rightarrow> Inl AttributeError | Some p \<Rightarrow> run_layer B p s)
      else Inr s)"

definition main_branch :: "'t backend \<Rightarrow> SENextBottleneck \<Rightarrow> 't \<Rightarrow> error + 't" where
  "main_branch B m x =
     bind_res (bind_res (bind_res (bind_res
       (ConvBR2d_forward B (conv1 m) x)
       (ConvBR2d_forward B (conv2 m)))
       (pool_if_stride B m))
       (ConvBR2d_forward B (conv3 m)))
       (CSEModule_forward B (se m))"

definition shortcut_branch :: "'t backend \<Rightarrow> SENextBottleneck \<Rightarrow> 't \<Rightarrow> error + 't" where
  "shortcut_branch B m x =
     (if is_shortcut m
      then bind_res
             (if stride m > 1 then F_avg_pool2d B x (stride m) (stride m) else Inr x)
             (\<lambda>x'. case shortcut m of
                      None \<Rightarrow> Inl AttributeError
                    | Some sc \<Rightarrow> ConvBR2d_forward B sc x')
      else Inr x)"

definition spec_forward :: "'t backend \<Rightarrow> SENextBottleneck \<Rightarrow> 't \<Rightarrow> error + 't" where
  "spec_forward B m x =
     bind_res (main_branch B m x) (\<lambda>s.
       bind_res (shortcut_branch B m x) (\<lambda>sb.
         bind_res (tensor_add B sb s) (F_relu B)))"

section \<open>The library on shapes\<close>

text \<open>
  A tensor seen through its shape \<open>(batch, channels, height, width)\<close>, and what
  the library's operations do to shapes, as its documentation gives it.

  A convolution needs the input's channel count to be its in_channels and gives
  \<open>\<lfloor>(h + 2\<cdot>padding - dilation\<cdot>(kernel_size - 1) - 1) / stride\<rfloor> + 1\<close> rows;
  a pooling layer with window \<open>k\<close> and stride \<open>s\<close> gives \<open>\<lfloor>(h - k) / s\<rfloor> + 1\<close>;
  an output without rows or columns is an error. A convolution built with no
  input or no output channel can be constructed but raises \<open>RuntimeError\<close> when
  it is run, and the pooling layers refuse an input without channels. Batch normalisation needs the
  channel count it was built for and, in training mode only, more than one
  value per channel. The elementwise operators broadcast: two sizes of a
  dimension are compatible when they are equal or one of them is 1.
\<close>

type_synonym shape = "nat \<times> nat \<times> nat \<times> nat"

definition conv_out_size :: "nat \<Rightarrow> int \<Rightarrow> int \<Rightarrow> int \<Rightarrow> int \<Rightarrow> int" where
  "conv_out_size h k p d s = (int h + 2 * p - d * (k - 1) - 1) div s + 1"

fun layer_shape :: "bool \<Rightarrow> nn_layer \<Rightarrow> shape \<Rightarrow> error + shape" where
  "layer_shape training (Conv2d cin cout k p d s g bias) (b, c, h, w) =
     (if int c \<noteq> cin \<or> s \<le> 0 \<or> cin \<le> 0 \<or> cout \<le> 0 then Inl RuntimeError
      else if conv_out_size h k p d s \<le> 0 \<or> conv_out_size w k p d s \<le> 0 then Inl RuntimeError
      else Inr (b, nat cout, nat (conv_out_size h k p d s), nat (conv_out_size w k p d s)))"
| "layer_shape training (BatchNorm2d n) (b, c, h, w) =
     (if int c \<noteq> n then Inl RuntimeError
      else if training \<and> b * h * w = 1 then Inl ValueError
      else Inr (b, c, h, w))"
| "layer_shape training ReLU x = Inr x"
| "layer_shape training Sigmoid x = Inr x"
| "layer_shape training (AdaptiveAvgPool2d n) (b, c, h, w) =
     (if c = 0 \<or> h = 0 \<or> w = 0 \<or> n < 0 then Inl RuntimeError else Inr (b, c, nat n, nat n))"
| "layer_shape training (MaxPool2d k s) (b, c, h, w) =
     (if c = 0 \<or> k \<le> 0 \<or> s \<le> 0 then Inl RuntimeError
      else if conv_out_size h k 0 1 s \<le> 0 \<or> conv_out_size w k 0 1 s \<le> 0 then Inl RuntimeError
      else Inr (b, c, nat (conv_out_size h k 0 1 s), nat (conv_out_size w k 0 1 s)))"
| "layer_shape training (AvgPool2d k s) (b, c, h, w) =
     (if c = 0 \<or> k \<le> 0 \<or> s \<le> 0 then Inl RuntimeError
      else if conv_out_size h k 0 1 s \<le> 0 \<or> conv_out_size w k 0 1 s \<le> 0 then Inl RuntimeError
      else Inr (b, c, nat (conv_out_size h k 0 1 s), nat (conv_out_size w k 0 1 s)))"

definition compatible_dim :: "nat \<Rightarrow> nat \<Rightarrow> bool" where
  "compatible_dim a b = (a = b \<or> a = 1 \<or> b = 1)"

definition broadcast_dim :: "nat \<Rightarrow> nat \<Rightarrow> nat" where
  "broadcast_dim a b = (if a = 1 then b else a)"

fun broadcastable :: "shape \<Rightarrow> shape \<Rightarrow> bool" where
  "broadcastable (b1, c1, h1, w1) (b2, c2, h2, w2) =
     (compatible_dim b1 b2 \<and> compatible_dim c1 c2 \<and> compatible_dim h1 h2 \<and> compatible_dim w1 w2)"

fun broadcast_shapes :: "shape \<Rightarrow> shape \<Rightarrow> error + shape" where
  "broadcast_shapes (b1, c1, h1, w1) (b2, c2, h2, w2) =
     (if broadcastable (b1, c1, h1, w1) (b2, c2, h2, w2)
      then Inr (broadcast_dim b1 b2, broadcast_dim c1 c2, broadcast_dim h1 h2, broadcast_dim w1 w2)
      else Inl RuntimeError)"

definition shape_backend :: "bool \<Rightarrow> shape backend" where
  "shape_backend training =
     \<lparr>run_layer = layer_shape training,
      tensor_add = broadcast_shapes,
      tensor_mul = broadcast_shapes,
      F_relu = Inr,
      F_avg_pool2d = (\<lambda>x k s. layer_shape training (AvgPool2d k s) x)\<rparr>"

section \<open>Properties of the multi-hot encoder\<close>

lemma np_setitem_length:
  "np_setitem base l v = Inr base' \<Longrightarrow> length base' = length base"
  by (auto simp: np_setitem_def Let_def split: if_splits)

lemma mark_labels_length:
  "mark_labels base ls = Inr v \<Longrightarrow> length v = length base"
proof (induction ls arbitrary: base)
  case Nil
  then show ?case by simp
next
  case (Cons l ls)
  then show ?case
    by (auto split: sum.splits dest: np_setitem_length)
qed

lemma np_setitem_ok:
  "- int (length base) \<le> l \<Longrightarrow> l < int (length base) \<Longrightarrow>
   np_setitem base l v = Inr (base[nat (l mod int (length base)) := v])"
proof -
  assume a: "- int (length base) \<le> l" "l < int (length base)"
  have "(if l < 0 then l + int (length base) else l) = l mod int (length base)"
  proof (cases "l < 0")
    case True
    with a have "0 \<le> l + int (length base)" "l + int (length base) < int (length base)" by auto
    then have "(l + int (length base)) mod int (length base) = l + int (length base)"
      by (rule mod_pos_pos_trivial)
    moreover have "(l + int (length base)) mod int (length base) = l mod int (length base)" by simp
    ultimately show ?thesis using True by simp
  next
    case False
    with a show ?thesis by simp
  qed
  with a show ?thesis by (simp add: np_setitem_def Let_def)
qed

lemma np_setitem_err:
  "l < - int (length base) \<or> int (length base) \<le> l \<Longrightarrow>
   np_setitem base l v = Inl (index_error l)"
  by (simp add: np_setitem_def Let_def)

lemma positions_Cons: "positions sz (l # ls) = insert (nat (l mod sz)) (positions sz ls)"
  by (simp add: positions_def)

lemma mark_labels_ok:
  "ids_in_range (int (length base)) ls \<Longrightarrow>
   mark_labels base ls =
     Inr (map (\<lambda>i. if i \<in> positions (int (length base)) ls then 1 else base ! i) [0..<length base])"
proof (induction ls arbitrary: base)
  case Nil
  then show ?case by (simp add: positions_def map_nth)
next
  case (Cons l ls)
  let ?n = "int (length base)"
  let ?b = "base[nat (l mod ?n) := 1]"
  from Cons.prems have r: "- ?n \<le> l" "l < ?n" and rest: "ids_in_range ?n ls"
    by (simp_all add: ids_in_range_def)
  have step: "np_setitem base l 1 = Inr ?b" using r by (rule np_setitem_ok)
  have len: "length ?b = length base" by simp
  from rest have "ids_in_range (int (length ?b)) ls" by simp
  from Cons.IH[OF this]
  have "mark_labels ?b ls =
        Inr (map (\<lambda>i. if i \<in> positions ?n ls then 1 else ?b ! i) [0..<length base])"
    by simp
  moreover have "map (\<lambda>i. if i \<in> positions ?n ls then 1 else ?b ! i) [0..<length base]
      = map (\<lambda>i. if i \<in> positions ?n (l # ls) then 1 else base ! i) [0..<length base]"
    by (rule map_cong) (auto simp: positions_Cons nth_list_update)
  ultimately show ?case using step by simp
qed

text \<open>The first id out of range, if there is one, decides the exception.\<close>

lemma mark_labels_err:
  "find (\<lambda>l. l < - int (length base) \<or> int (length base) \<le> l) ls = Some bad \<Longrightarrow>
   mark_labels base ls = Inl (index_error bad)"
proof (induction ls arbitrary: base)
  case Nil
  then show ?case by simp
next
  case (Cons l ls)
  show ?case
  proof (cases "l < - int (length base) \<or> int (length base) \<le> l")
    case True
    with Cons.prems have "bad = l" by simp
    with True show ?thesis by (simp add: np_setitem_err)
  next
    case False
    then have r: "- int (length base) \<le> l" "l < int (length base)" by auto
    let ?b = "base[nat (l mod int (length base)) := 1]"
    from Cons.prems False
    have "find (\<lambda>l. l < - int (length ?b) \<or> int (length ?b) \<le> l) ls = Some bad"
      by simp
    from Cons.IH[OF this] show ?thesis using np_setitem_ok[OF r] by simp
  qed
qed

lemma first_out_of_range:
  "\<not> ids_in_range sz ls \<Longrightarrow> \<exists>bad. find (\<lambda>l. l < - sz \<or> sz \<le> l) ls = Some bad"
  by (cases "find (\<lambda>l. l < - sz \<or> sz \<le> l) ls")
     (auto simp: find_None_iff ids_in_range_def list_all_iff not_le not_less)

lemma multi_hot_row_ok:
  "0 \<le> sz \<Longrightarrow> ids_in_range sz (label_ids ano) \<Longrightarrow>
   multi_hot_row sz ano = Inr (indicator_row sz (label_ids ano))"
  using mark_labels_ok[of "replicate (nat sz) 0" "label_ids ano"]
  by (simp add: multi_hot_row_def np_zeros_def indicator_row_def cong: map_cong)

lemma multi_hot_row_err:
  "0 \<le> sz \<Longrightarrow> find (\<lambda>l. l < - sz \<or> sz \<le> l) (label_ids ano) = Some bad \<Longrightarrow>
   multi_hot_row sz ano = Inl (index_error bad)"
  using mark_labels_err[of "replicate (nat sz) 0" "label_ids ano" bad]
  by (simp add: multi_hot_row_def np_zeros_def)

lemma multi_hot_row_fails:
  "0 \<le> sz \<Longrightarrow> \<not> ids_in_range sz (label_ids ano) \<Longrightarrow> \<exists>e. multi_hot_row sz ano = Inl e"
  using first_out_of_range[of sz "label_ids ano"] multi_hot_row_err[of sz ano] by blast

lemma fill_rows_ok:
  "0 \<le> sz \<Longrightarrow> list_all (\<lambda>a. ids_in_range sz (label_ids a)) anns \<Longrightarrow>
   fill_rows sz anns = Inr (map (\<lambda>a. indicator_row sz (label_ids a)) anns)"
  by (induction anns) (simp_all add: multi_hot_row_ok)

lemma fill_rows_err:
  "0 \<le> sz \<Longrightarrow> \<not> list_all (\<lambda>a. ids_in_range sz (label_ids a)) anns \<Longrightarrow>
   \<exists>e. fill_rows sz anns = Inl e"
proof (induction anns)
  case Nil
  then show ?case by simp
next
  case (Cons a anns)
  show ?case
  proof (cases "ids_in_range sz (label_ids a)")
    case True
    with Cons show ?thesis by (auto simp: multi_hot_row_ok)
  next
    case False
    from multi_hot_row_fails[OF Cons.prems(1) False] show ?thesis by auto
  qed
qed

lemma to_multi_hot_ok:
  "0 \<le> sz \<Longrightarrow> list_all (\<lambda>a. ids_in_range sz (label_ids a)) anns \<Longrightarrow>
   to_multi_hot anns sz = Inr (map (\<lambda>a. indicator_row sz (label_ids a)) anns)"
  by (simp add: to_multi_hot_def np_zeros_def fill_rows_ok)

lemma to_multi_hot_err:
  "0 \<le> sz \<Longrightarrow> \<not> list_all (\<lambda>a. ids_in_range sz (label_ids a)) anns \<Longrightarrow>
   \<exists>e. to_multi_hot anns sz = Inl e"
  by (simp add: to_multi_hot_def np_zeros_def fill_rows_err)


lemma to_multi_hot_negative_size: "sz < 0 \<Longrightarrow> to_multi_hot anns sz = Inl ValueError"
  by (simp add: to_multi_hot_def np_zeros_def)

section \<open>Claims about the multi-hot encoder\<close>

lemma indicator_row_length: "length (indicator_row sz ls) = nat sz"
  by (simp add: indicator_row_def)

lemma indicator_row_nth:
  "i < nat sz \<Longrightarrow> indicator_row sz ls ! i = (if i \<in> positions sz ls then 1 else 0)"
  by (simp add: indicator_row_def)






lemma positions_valid:
  assumes "\<forall>l\<in>set ls. 0 \<le> l \<and> l < sz"
  shows "int ` positions sz ls = set ls" and "positions sz ls \<subseteq> {0..<nat sz}"
proof -
  have "\<And>l. l \<in> set ls \<Longrightarrow> l mod sz = l" using assms by simp
  then show "int ` positions sz ls = set ls"
    using assms by (force simp: positions_def image_image)
  show "positions sz ls \<subseteq> {0..<nat sz}"
    using assms by (auto simp: positions_def)
qed

lemma one_positions_indicator:
  "positions sz ls \<subseteq> {0..<nat sz} \<Longrightarrow> set (one_positions (indicator_row sz ls)) = positions sz ls"
  by (auto simp: one_positions_def indicator_row_length indicator_row_nth split: if_splits)

text \<open>
  C5. For a list \<open>S\<close> of valid ids (each \<open>0 \<le> id < L\<close>) and size \<open>L\<close>, the encoder
  succeeds and the set of positions of the encoded vector that hold 1 is exactly
  the set of ids in \<open>S\<close>.
\<close>

theorem multi_hot_round_trip:
  assumes "0 \<le> L" and "\<forall>l\<in>set S. 0 \<le> l \<and> l < L"
  shows "\<exists>v. to_multi_hot [\<lparr>id_ano = k, label_ids = S\<rparr>] L = Inr [v] \<and>
             length v = nat L \<and> int ` set (one_positions v) = set S"
proof -
  from assms have "ids_in_range L S" by (fastforce simp: ids_in_range_def list_all_iff)
  with assms(1) have "to_multi_hot [\<lparr>id_ano = k, label_ids = S\<rparr>] L = Inr [indicator_row L S]"
    by (simp add: to_multi_hot_ok)
  moreover have "int ` set (one_positions (indicator_row L S)) = set S"
    using positions_valid[OF assms(2)] by (simp add: one_positions_indicator)
  ultimately show ?thesis using indicator_row_length by blast
qed

theorem multi_hot_round_trip_witness:
  "(0::int) \<le> 3474 \<and> list_all (\<lambda>l. 0 \<le> l \<and> l < (3474::int)) [2, 5, 9] \<and>
   (\<exists>v. to_multi_hot [\<lparr>id_ano = ''a'', label_ids = [2, 5, 9]\<rparr>] 3474 = Inr [v] \<and>
        length v = 3474 \<and> int ` set (one_positions v) = {2, 5, 9})"
  using multi_hot_round_trip[of 3474 "[2, 5, 9]" "''a''"] by simp

section \<open>Properties of the F-beta score\<close>

lemma tp_sum_le:
  "length g = length p \<Longrightarrow> tp_sum g p \<le> pos_sum g \<and> tp_sum g p \<le> pos_sum p"
  by (induction g p rule: list_induct2) (auto simp: tp_sum_def pos_sum_def)

lemma tp_sum_same: "tp_sum r r = pos_sum r"
  by (induction r) (auto simp: tp_sum_def pos_sum_def)

text \<open>
  The library's computation through precision and recall and the formula of the
  specification, from the counts, agree for \<open>\<beta> = 2\<close>.
\<close>

lemma fbeta_score_spec:
  assumes "length g = length p"
  shows "fbeta_score g p 2 = Inr (spec_fbeta2 p g)"
proof -
  define tp where "tp = tp_sum g p"
  define P where "P = pos_sum p"
  define G where "G = pos_sum g"
  have le: "tp \<le> G" "tp \<le> P" using tp_sum_le[OF assms] by (simp_all add: tp_def G_def P_def)
  have lhs: "fbeta_score g p 2 =
      Inr (let precision = prf_divide tp P; recall = prf_divide tp G;
               denom = 4 * precision + recall
           in 5 * precision * recall / (if denom = 0 then 1 else denom))"
    using assms by (simp add: fbeta_score_def Let_def tp_def P_def G_def)
  have rhs: "spec_fbeta2 p g =
      (let d = 5 * real tp + 4 * (real G - real tp) + (real P - real tp)
       in if d = 0 then 0 else 5 * real tp / d)"
    by (simp add: spec_fbeta2_def Let_def tp_def P_def G_def)
  show ?thesis
  proof (cases "tp = 0")
    case True
    then show ?thesis unfolding lhs rhs by (simp add: prf_divide_def Let_def)
  next
    case False
    with le have pos: "0 < real tp" "0 < real P" "0 < real G" by simp_all
    have d: "5 * real tp + 4 * (real G - real tp) + (real P - real tp) = 4 * real G + real P"
      by simp
    have dpos: "0 < 4 * real G + real P" using pos by simp
    have ne: "real tp \<noteq> 0" "real P \<noteq> 0" "real G \<noteq> 0" "4 * real G + real P \<noteq> 0"
      using pos by simp_all
    have den: "4 * (real tp / real P) + real tp / real G
                 = real tp * (4 * real G + real P) / (real P * real G)"
      using ne by (simp add: field_simps)
    have num: "5 * (real tp / real P) * (real tp / real G) = 5 * real tp * real tp / (real P * real G)"
      by simp
    have dne: "4 * (real tp / real P) + real tp / real G \<noteq> 0"
      unfolding den using ne by simp
    have "5 * real tp * real tp / (real P * real G) / (real tp * (4 * real G + real P) / (real P * real G))
            = 5 * real tp * real tp / (real tp * (4 * real G + real P))"
      using ne by simp
    also have "\<dots> = 5 * real tp / (4 * real G + real P)" using ne by simp
    finally have "5 * (real tp / real P) * (real tp / real G) / (4 * (real tp / real P) + real tp / real G)
            = 5 * real tp / (4 * real G + real P)"
      unfolding den num .
    with dne dpos pos show ?thesis
      unfolding lhs rhs d by (simp add: prf_divide_def Let_def)
  qed
qed

lemma spec_fbeta2_range:
  assumes "length g = length p"
  shows "0 \<le> spec_fbeta2 p g \<and> spec_fbeta2 p g \<le> 1"
proof -
  have le: "real (tp_sum g p) \<le> real (pos_sum g)" "real (tp_sum g p) \<le> real (pos_sum p)"
    using tp_sum_le[OF assms] by simp_all
  define d where "d = 5 * real (tp_sum g p) + 4 * (real (pos_sum g) - real (tp_sum g p))
                        + (real (pos_sum p) - real (tp_sum g p))"
  have s: "spec_fbeta2 p g = (if d = 0 then 0 else 5 * real (tp_sum g p) / d)"
    by (simp add: spec_fbeta2_def Let_def d_def)
  have d0: "0 \<le> d" and d5: "5 * real (tp_sum g p) \<le> d" using le by (simp_all add: d_def)
  show ?thesis
  proof (cases "d = 0")
    case True
    then show ?thesis by (simp add: s)
  next
    case False
    with d0 have "0 < d" by simp
    with d5 show ?thesis by (simp add: s)
  qed
qed

lemma spec_fbeta2_same:
  assumes "0 < pos_sum r"
  shows "spec_fbeta2 r r = 1"
  using assms by (simp add: spec_fbeta2_def tp_sum_same Let_def)

section \<open>Properties of the evaluator\<close>

lemma to_multi_hot_Inr:
  assumes "to_multi_hot anns sz = Inr rows"
  shows "0 \<le> sz" and "list_all (\<lambda>a. ids_in_range sz (label_ids a)) anns"
    and "rows = map (\<lambda>a. indicator_row sz (label_ids a)) anns"
proof -
  show sz: "0 \<le> sz"
    using assms to_multi_hot_negative_size[of sz anns] by (cases "sz < 0") simp_all
  show r: "list_all (\<lambda>a. ids_in_range sz (label_ids a)) anns"
    using assms to_multi_hot_err[OF sz, of anns]
    by (cases "list_all (\<lambda>a. ids_in_range sz (label_ids a)) anns") auto
  show "rows = map (\<lambda>a. indicator_row sz (label_ids a)) anns"
    using assms to_multi_hot_ok[OF sz r] by simp
qed

lemma score_pairs_ok:
  assumes "list_all (\<lambda>(p, g). length g = length p) pairs"
  shows "score_pairs pairs = Inr (map (\<lambda>(p, g). spec_fbeta2 p g) pairs)"
  using assms by (induction pairs) (auto simp: fbeta_score_spec)

lemma rows_same_length:
  assumes "to_multi_hot pred sz = Inr ps" and "to_multi_hot gt sz = Inr gs"
  shows "list_all (\<lambda>(p, g). length g = length p) (zip ps gs)"
proof -
  have "\<forall>p\<in>set ps. length p = nat sz" "\<forall>g\<in>set gs. length g = nat sz"
    using to_multi_hot_Inr(3)[OF assms(1)] to_multi_hot_Inr(3)[OF assms(2)]
    by (auto simp: indicator_row_length)
  then show ?thesis
    by (fastforce simp: list_all_iff dest: set_zip_leftD set_zip_rightD)
qed

lemma evaluate_scores:
  assumes "to_multi_hot pred 3474 = Inr ps" and "to_multi_hot gt 3474 = Inr gs"
  shows "evaluate pred gt = Inr (np_mean (map (\<lambda>(p, g). spec_fbeta2 p g) (zip ps gs)))"
  using assms score_pairs_ok[OF rows_same_length[OF assms]] by (simp add: evaluate_def)

lemma evaluate_Inr:
  assumes "evaluate pred gt = Inr r"
  shows "\<exists>ps gs. to_multi_hot pred 3474 = Inr ps \<and> to_multi_hot gt 3474 = Inr gs"
  using assms by (auto simp: evaluate_def split: sum.splits)

lemma evaluate_error_pred:
  "to_multi_hot pred 3474 = Inl e \<Longrightarrow> evaluate pred gt = Inl e"
  by (simp add: evaluate_def)

lemma evaluate_error_gt:
  "to_multi_hot pred 3474 = Inr ps \<Longrightarrow> to_multi_hot gt 3474 = Inl e \<Longrightarrow> evaluate pred gt = Inl e"
  by (simp add: evaluate_def)

lemma map_zip_index:
  "map (\<lambda>(p, g). f p g) (zip ps gs) = map (\<lambda>i. f (ps ! i) (gs ! i)) [0..<min (length ps) (length gs)]"
  by (rule nth_equalityI) simp_all

lemma sum_list_unit_interval:
  "\<forall>x\<in>set xs. 0 \<le> x \<and> x \<le> (1::real) \<Longrightarrow> 0 \<le> sum_list xs \<and> sum_list xs \<le> real (length xs)"
  by (induction xs) auto

lemma sum_list_all_one:
  "\<forall>x\<in>set xs. x = (1::real) \<Longrightarrow> sum_list xs = real (length xs)"
  by (induction xs) auto

subsection \<open>Counting on indicator rows\<close>

lemma positions_in_range:
  assumes "ids_in_range sz ls"
  shows "positions sz ls \<subseteq> {0..<nat sz}"
proof
  fix i assume "i \<in> positions sz ls"
  then obtain l where l: "l \<in> set ls" "i = nat (l mod sz)" by (auto simp: positions_def)
  with assms have "- sz \<le> l" "l < sz" by (auto simp: ids_in_range_def list_all_iff)
  then have "0 < sz" by simp
  then have "0 \<le> l mod sz" "l mod sz < sz" by simp_all
  with l(2) show "i \<in> {0..<nat sz}" by simp
qed

lemma count_filter_upt:
  "length (filter Q [0..<n]) = card {i. i < n \<and> Q i}"
proof -
  have "card (set (filter Q [0..<n])) = length (filter Q [0..<n])"
    by (rule distinct_card) simp
  moreover have "set (filter Q [0..<n]) = {i. i < n \<and> Q i}" by auto
  ultimately show ?thesis by simp
qed

lemma pos_sum_indicator:
  assumes "positions sz ls \<subseteq> {0..<nat sz}"
  shows "pos_sum (indicator_row sz ls) = card (positions sz ls)"
proof -
  have "pos_sum (indicator_row sz ls)
          = card {i. i < nat sz \<and> ((\<lambda>t. t = 1) \<circ> (\<lambda>i. if i \<in> positions sz ls then 1 else (0::nat))) i}"
    by (simp only: pos_sum_def indicator_row_def filter_map length_map count_filter_upt)
  also have "{i. i < nat sz \<and> ((\<lambda>t. t = 1) \<circ> (\<lambda>i. if i \<in> positions sz ls then 1 else (0::nat))) i}
          = positions sz ls"
    using assms by auto
  finally show ?thesis .
qed

lemma tp_sum_indicator:
  assumes "positions sz A \<subseteq> {0..<nat sz}"
  shows "tp_sum (indicator_row sz A) (indicator_row sz B) = card (positions sz A \<inter> positions sz B)"
proof -
  let ?h = "\<lambda>i. (if i \<in> positions sz A then 1 else (0::nat), if i \<in> positions sz B then 1 else (0::nat))"
  let ?Q = "\<lambda>(t, p). t = (1::nat) \<and> p = (1::nat)"
  have z: "zip (indicator_row sz A) (indicator_row sz B) = map ?h [0..<nat sz]"
    by (simp add: indicator_row_def zip_map_map zip_same_conv_map)
  have "tp_sum (indicator_row sz A) (indicator_row sz B) = card {i. i < nat sz \<and> (?Q \<circ> ?h) i}"
    by (simp only: tp_sum_def z filter_map length_map count_filter_upt)
  also have "{i. i < nat sz \<and> (?Q \<circ> ?h) i} = positions sz A \<inter> positions sz B"
    using assms by (auto split: if_splits)
  finally show ?thesis .
qed

lemma spec_fbeta2_indicator:
  assumes "ids_in_range sz P" and "ids_in_range sz G"
  shows "spec_fbeta2 (indicator_row sz P) (indicator_row sz G) =
     (let tp = real (card (positions sz G \<inter> positions sz P));
          d = 5 * tp + 4 * (real (card (positions sz G)) - tp) + (real (card (positions sz P)) - tp)
      in if d = 0 then 0 else 5 * tp / d)"
  using assms
  by (simp add: spec_fbeta2_def Let_def tp_sum_indicator pos_sum_indicator positions_in_range)

lemma pos_sum_indicator_positive:
  assumes "ids_in_range sz ls" and "ls \<noteq> []"
  shows "0 < pos_sum (indicator_row sz ls)"
proof -
  have "finite (positions sz ls)" by (simp add: positions_def)
  moreover have "positions sz ls \<noteq> {}" using assms(2) by (simp add: positions_def)
  ultimately have "0 < card (positions sz ls)" by (simp add: card_gt_0_iff)
  then show ?thesis using assms(1) by (simp add: pos_sum_indicator positions_in_range)
qed

text \<open>The concrete scenario of the specification: TP = 2, FP = 0, FN = 1 gives 10/14.\<close>

lemma evaluate_example:
  "evaluate [\<lparr>id_ano = ''1'', label_ids = [2, 5]\<rparr>] [\<lparr>id_ano = ''1'', label_ids = [2, 5, 9]\<rparr>]
     = Inr (Val (5 / 7))"
proof -
  have p: "to_multi_hot [\<lparr>id_ano = ''1'', label_ids = [2, 5]\<rparr>] 3474 = Inr [indicator_row 3474 [2, 5]]"
    by (simp add: to_multi_hot_ok ids_in_range_def)
  have g: "to_multi_hot [\<lparr>id_ano = ''1'', label_ids = [2, 5, 9]\<rparr>] 3474 = Inr [indicator_row 3474 [2, 5, 9]]"
    by (simp add: to_multi_hot_ok ids_in_range_def)
  have "spec_fbeta2 (indicator_row 3474 [2, 5]) (indicator_row 3474 [2, 5, 9]) = 5 / 7"
    by (simp add: spec_fbeta2_indicator ids_in_range_def positions_def)
  then show ?thesis
    by (simp add: evaluate_scores[OF p g] np_mean_def)
qed

section \<open>Claims about the evaluator\<close>

text \<open>
  C3 (amended). \<^verbatim>\<open>evaluate\<close> has no length check and never fails on a length
  mismatch: when both sequences are encoded without error it pairs
  \<open>predicted[i]\<close> with \<open>ground_truth[i]\<close> for the indices below the length of
  the shorter sequence, ignoring the extra records of the longer one, scores
  every pair of multi-hot rows with the F-beta score for beta = 2 (the
  specification's formula), and returns the arithmetic mean of these scores
  (numpy's \<open>nan\<close> when there is no pair).
\<close>

theorem evaluate_pairs_up_to_shorter:
  assumes "to_multi_hot pred 3474 = Inr ps" and "to_multi_hot gt 3474 = Inr gs"
  shows "length ps = length pred \<and> length gs = length gt \<and>
         evaluate pred gt =
           Inr (np_mean (map (\<lambda>i. spec_fbeta2 (ps ! i) (gs ! i))
                             [0..<min (length pred) (length gt)])) \<and>
         (\<forall>i<min (length pred) (length gt).
            fbeta_score (gs ! i) (ps ! i) 2 = Inr (spec_fbeta2 (ps ! i) (gs ! i)))"
proof -
  have lp: "length ps = length pred" using to_multi_hot_Inr(3)[OF assms(1)] by simp
  have lg: "length gs = length gt" using to_multi_hot_Inr(3)[OF assms(2)] by simp
  have ev: "evaluate pred gt =
      Inr (np_mean (map (\<lambda>i. spec_fbeta2 (ps ! i) (gs ! i)) [0..<min (length pred) (length gt)]))"
    using evaluate_scores[OF assms] map_zip_index[of spec_fbeta2 ps gs] lp lg by simp
  have "\<forall>i<min (length pred) (length gt). length (gs ! i) = length (ps ! i)"
    using rows_same_length[OF assms] lp lg by (simp add: list_all_length)
  then have "\<forall>i<min (length pred) (length gt).
      fbeta_score (gs ! i) (ps ! i) 2 = Inr (spec_fbeta2 (ps ! i) (gs ! i))"
    by (simp add: fbeta_score_spec)
  with lp lg ev show ?thesis by blast
qed

lemma spec_fbeta2_example_same:
  "spec_fbeta2 (indicator_row 3474 [2, 5]) (indicator_row 3474 [2, 5]) = 1"
  by (simp add: spec_fbeta2_indicator ids_in_range_def positions_def)

theorem evaluate_pairs_up_to_shorter_witness:
  "to_multi_hot [\<lparr>id_ano = ''a'', label_ids = [2, 5]\<rparr>] 3474 = Inr [indicator_row 3474 [2, 5]] \<and>
   to_multi_hot [\<lparr>id_ano = ''a'', label_ids = [2, 5]\<rparr>, \<lparr>id_ano = ''b'', label_ids = [7]\<rparr>] 3474
     = Inr [indicator_row 3474 [2, 5], indicator_row 3474 [7]] \<and>
   evaluate [\<lparr>id_ano = ''a'', label_ids = [2, 5]\<rparr>]
            [\<lparr>id_ano = ''a'', label_ids = [2, 5]\<rparr>, \<lparr>id_ano = ''b'', label_ids = [7]\<rparr>]
     = Inr (np_mean [spec_fbeta2 (indicator_row 3474 [2, 5]) (indicator_row 3474 [2, 5])])"
proof -
  have p: "to_multi_hot [\<lparr>id_ano = ''a'', label_ids = [2, 5]\<rparr>] 3474 = Inr [indicator_row 3474 [2, 5]]"
    by (simp add: to_multi_hot_ok ids_in_range_def)
  have g: "to_multi_hot [\<lparr>id_ano = ''a'', label_ids = [2, 5]\<rparr>, \<lparr>id_ano = ''b'', label_ids = [7]\<rparr>] 3474
             = Inr [indicator_row 3474 [2, 5], indicator_row 3474 [7]]"
    by (simp add: to_multi_hot_ok ids_in_range_def)
  from evaluate_pairs_up_to_shorter[OF p g] p g show ?thesis by simp
qed

text \<open>
  The claim as stated fails: a prediction sequence of length 1 and a ground
  truth of length 2 are not rejected; the second ground-truth record is
  ignored and the score of the first pair, 1, is returned.
\<close>

theorem length_mismatch_accepted_counterexample:
  "evaluate [\<lparr>id_ano = ''a'', label_ids = [2, 5]\<rparr>]
            [\<lparr>id_ano = ''a'', label_ids = [2, 5]\<rparr>, \<lparr>id_ano = ''b'', label_ids = [7]\<rparr>]
     = Inr (Val 1)"
proof -
  have p: "to_multi_hot [\<lparr>id_ano = ''a'', label_ids = [2, 5]\<rparr>] 3474 = Inr [indicator_row 3474 [2, 5]]"
    by (simp add: to_multi_hot_ok ids_in_range_def)
  have g: "to_multi_hot [\<lparr>id_ano = ''a'', label_ids = [2, 5]\<rparr>, \<lparr>id_ano = ''b'', label_ids = [7]\<rparr>] 3474
             = Inr [indicator_row 3474 [2, 5], indicator_row 3474 [7]]"
    by (simp add: to_multi_hot_ok ids_in_range_def)
  show ?thesis
    by (simp add: evaluate_scores[OF p g] np_mean_def spec_fbeta2_example_same)
qed

text \<open>
  C6. For every non-empty annotation sequence \<open>X\<close> in which every record has at
  least one label id and all its label ids are valid (\<open>0 \<le> id < 3474\<close>),
  \<open>evaluate(X, X)\<close> is 1.
\<close>

theorem evaluate_identity:
  assumes "X \<noteq> []"
    and "\<forall>a\<in>set X. label_ids a \<noteq> [] \<and> (\<forall>l\<in>set (label_ids a). 0 \<le> l \<and> l < 3474)"
  shows "evaluate X X = Inr (Val 1)"
proof -
  have r: "\<forall>a\<in>set X. ids_in_range 3474 (label_ids a)"
    using assms(2) by (fastforce simp: ids_in_range_def list_all_iff)
  let ?rows = "map (\<lambda>a. indicator_row 3474 (label_ids a)) X"
  have enc: "to_multi_hot X 3474 = Inr ?rows"
    using r by (simp add: to_multi_hot_ok list_all_iff)
  let ?scores = "map (\<lambda>(p, g). spec_fbeta2 p g) (zip ?rows ?rows)"
  have ev: "evaluate X X = Inr (np_mean ?scores)" by (rule evaluate_scores[OF enc enc])
  have ones: "\<forall>x\<in>set ?scores. x = 1"
  proof
    fix x assume "x \<in> set ?scores"
    then obtain a where a: "a \<in> set X"
      and x: "x = spec_fbeta2 (indicator_row 3474 (label_ids a)) (indicator_row 3474 (label_ids a))"
      by (auto simp: zip_same_conv_map)
    from a r assms(2) have "0 < pos_sum (indicator_row 3474 (label_ids a))"
      by (simp add: pos_sum_indicator_positive)
    then show "x = 1" unfolding x by (rule spec_fbeta2_same)
  qed
  have len: "length ?scores = length X" by simp
  have "?scores \<noteq> []" using assms(1) by simp
  moreover have "sum_list ?scores = real (length X)"
    using sum_list_all_one[OF ones] len by simp
  ultimately have "np_mean ?scores = Val 1"
    using assms(1) by (simp add: np_mean_def)
  with ev show ?thesis by simp
qed

theorem evaluate_identity_witness:
  "[\<lparr>id_ano = ''a'', label_ids = [2, 5]\<rparr>, \<lparr>id_ano = ''b'', label_ids = [7]\<rparr>] \<noteq> [] \<and>
   list_all (\<lambda>a. label_ids a \<noteq> [] \<and> list_all (\<lambda>l. 0 \<le> l \<and> l < 3474) (label_ids a))
     [\<lparr>id_ano = ''a'', label_ids = [2, 5]\<rparr>, \<lparr>id_ano = ''b'', label_ids = [7]\<rparr>] \<and>
   evaluate [\<lparr>id_ano = ''a'', label_ids = [2, 5]\<rparr>, \<lparr>id_ano = ''b'', label_ids = [7]\<rparr>]
            [\<lparr>id_ano = ''a'', label_ids = [2, 5]\<rparr>, \<lparr>id_ano = ''b'', label_ids = [7]\<rparr>]
     = Inr (Val 1)"
  using evaluate_identity[of "[\<lparr>id_ano = ''a'', label_ids = [2, 5]\<rparr>, \<lparr>id_ano = ''b'', label_ids = [7]\<rparr>]"]
  by simp

text \<open>
  C9 (amended). For every pair of annotation sequences accepted by
  \<^verbatim>\<open>evaluate\<close> in which both sequences are non-empty, the returned value is a
  score in the closed interval \<open>[0, 1]\<close>; when either sequence is empty (in
  particular for the empty pair) the returned value is numpy's \<open>nan\<close>, the mean
  of no score, and not a number in \<open>[0, 1]\<close>.
\<close>

theorem evaluate_range:
  assumes "evaluate pred gt = Inr r"
  shows "(pred = [] \<or> gt = [] \<longrightarrow> r = NaN) \<and>
         (pred \<noteq> [] \<and> gt \<noteq> [] \<longrightarrow> (\<exists>v. r = Val v \<and> 0 \<le> v \<and> v \<le> 1))"
proof -
  from evaluate_Inr[OF assms] obtain ps gs
    where p: "to_multi_hot pred 3474 = Inr ps" and g: "to_multi_hot gt 3474 = Inr gs" by blast
  have lp: "length ps = length pred" using to_multi_hot_Inr(3)[OF p] by simp
  have lg: "length gs = length gt" using to_multi_hot_Inr(3)[OF g] by simp
  let ?scores = "map (\<lambda>(p, g). spec_fbeta2 p g) (zip ps gs)"
  have r: "r = np_mean ?scores" using evaluate_scores[OF p g] assms by simp
  have rng: "\<forall>x\<in>set ?scores. 0 \<le> x \<and> x \<le> 1"
    using rows_same_length[OF p g] by (auto simp: list_all_iff spec_fbeta2_range)
  have empty: "?scores = [] \<longleftrightarrow> pred = [] \<or> gt = []"
    using lp lg by (cases ps; cases gs) auto
  show ?thesis
  proof (intro conjI impI)
    assume "pred = [] \<or> gt = []"
    with empty have "?scores = []" by simp
    then show "r = NaN" unfolding r by (simp add: np_mean_def)
  next
    assume "pred \<noteq> [] \<and> gt \<noteq> []"
    with empty have ne: "?scores \<noteq> []" by simp
    then have len: "0 < real (length ?scores)" by simp
    from sum_list_unit_interval[OF rng]
    have "0 \<le> sum_list ?scores" and "sum_list ?scores \<le> real (length ?scores)" by simp_all
    with len have "0 \<le> sum_list ?scores / real (length ?scores)"
      and "sum_list ?scores / real (length ?scores) \<le> 1"
      by (simp_all add: divide_le_eq)
    with ne show "\<exists>v. r = Val v \<and> 0 \<le> v \<and> v \<le> 1"
      unfolding r np_mean_def by simp
  qed
qed

theorem evaluate_range_witness:
  "evaluate [\<lparr>id_ano = ''1'', label_ids = [2, 5]\<rparr>] [\<lparr>id_ano = ''1'', label_ids = [2, 5, 9]\<rparr>]
     = Inr (Val (5 / 7)) \<and>
   [\<lparr>id_ano = ''1'', label_ids = [2, 5]\<rparr>] \<noteq> [] \<and>
   [\<lparr>id_ano = ''1'', label_ids = [2, 5, 9]\<rparr>] \<noteq> [] \<and>
   (0::real) \<le> 5 / 7 \<and> (5::real) / 7 \<le> 1"
  using evaluate_range[OF evaluate_example] evaluate_example by simp

text \<open>
  The claim as stated fails at the empty pair, which \<^verbatim>\<open>evaluate\<close> accepts: the
  result is \<open>nan\<close>.
\<close>

theorem evaluate_empty_counterexample: "evaluate [] [] = Inr NaN"
  by (simp add: evaluate_def to_multi_hot_def np_zeros_def np_mean_def)

section \<open>Claims about the k-fold helper\<close>

lemma build_folds_same:
  "build_folds xs splits = Inr folds \<Longrightarrow>
   length folds = length splits \<and>
   (\<forall>k<length folds. fst (folds ! k) = snd (folds ! k) \<and>
                      select_rows xs (snd (splits ! k)) = Inr (snd (folds ! k)))"
proof (induction splits arbitrary: folds)
  case Nil
  then show ?case by simp
next
  case (Cons s splits)
  obtain train test where s: "s = (train, test)" by (cases s)
  from Cons.prems s obtain sel rest
    where sel: "select_rows xs test = Inr sel"
      and rest: "build_folds xs splits = Inr rest"
      and folds: "folds = (sel, sel) # rest"
    by (auto split: sum.splits)
  from Cons.IH[OF rest] have ih: "length rest = length splits"
    "\<forall>k<length rest. fst (rest ! k) = snd (rest ! k) \<and>
                      select_rows xs (snd (splits ! k)) = Inr (snd (rest ! k))"
    by simp_all
  show ?case
  proof (intro conjI allI impI)
    show "length folds = length (s # splits)" using ih(1) folds by simp
  next
    fix k assume "k < length folds"
    then show "fst (folds ! k) = snd (folds ! k)"
      using ih(2) folds by (cases k) simp_all
  next
    fix k assume "k < length folds"
    then show "select_rows xs (snd ((s # splits) ! k)) = Inr (snd (folds ! k))"
      using ih(2) folds sel s by (cases k) simp_all
  qed
qed

lemma build_folds_ignores_train:
  "map snd splits = map snd splits' \<Longrightarrow> build_folds xs splits = build_folds xs splits'"
proof (induction splits arbitrary: splits')
  case Nil
  then show ?case by simp
next
  case (Cons s splits)
  then obtain s' rest' where s': "splits' = s' # rest'" "snd s = snd s'" "map snd splits = map snd rest'"
    by (cases splits') auto
  obtain train test where s: "s = (train, test)" by (cases s)
  obtain train' where st: "s' = (train', test)" using s'(2) s by (cases s') simp
  show ?case using Cons.IH[OF s'(3)] s st s'(1) by (simp cong: sum.case_cong)
qed

text \<open>
  C10. Whatever the splitter returns, for every number of splits and every
  annotation list, each fold pair returned by \<^verbatim>\<open>kfold\<close> has its first component
  (the nominal train partition) equal to its second (the test partition): both
  are the annotations selected by the splitter's test indices, and the
  splitter's train indices are never used.
\<close>

theorem kfold_train_equals_test:
  assumes "kfold mskf_split n_splits annotations = Inr folds"
  shows "\<exists>multi_hot splits.
           to_multi_hot annotations 3474 = Inr multi_hot \<and>
           mskf_split n_splits (map int [0..<length multi_hot]) multi_hot = Inr splits \<and>
           length folds = length splits \<and>
           (\<forall>k<length folds.
              fst (folds ! k) = snd (folds ! k) \<and>
              select_rows annotations (snd (splits ! k)) = Inr (snd (folds ! k)))"
proof -
  from assms obtain multi_hot splits
    where m: "to_multi_hot annotations 3474 = Inr multi_hot"
      and s: "mskf_split n_splits (map int [0..<length multi_hot]) multi_hot = Inr splits"
      and b: "build_folds annotations splits = Inr folds"
    by (auto simp: kfold_def Let_def split: sum.splits)
  from build_folds_same[OF b] m s show ?thesis by blast
qed

theorem kfold_train_equals_test_witness:
  "kfold two_fold_split 2
     [\<lparr>id_ano = ''a'', label_ids = [2, 5]\<rparr>, \<lparr>id_ano = ''b'', label_ids = [7]\<rparr>]
   = Inr [([\<lparr>id_ano = ''a'', label_ids = [2, 5]\<rparr>], [\<lparr>id_ano = ''a'', label_ids = [2, 5]\<rparr>]),
          ([\<lparr>id_ano = ''b'', label_ids = [7]\<rparr>], [\<lparr>id_ano = ''b'', label_ids = [7]\<rparr>])]"
proof -
  let ?anns = "[\<lparr>id_ano = ''a'', label_ids = [2, 5]\<rparr>, \<lparr>id_ano = ''b'', label_ids = [7]\<rparr>]"
  have enc: "to_multi_hot ?anns 3474 = Inr (map (\<lambda>a. indicator_row 3474 (label_ids a)) ?anns)"
    by (rule to_multi_hot_ok) (simp_all add: ids_in_range_def)
  have k: "kfold two_fold_split 2 ?anns = build_folds ?anns [([1], [0]), ([0], [1])]"
    by (simp add: kfold_def enc two_fold_split_def)
  have sel: "select_rows ?anns [0] = Inr [\<lparr>id_ano = ''a'', label_ids = [2, 5]\<rparr>]"
    "select_rows ?anns [1] = Inr [\<lparr>id_ano = ''b'', label_ids = [7]\<rparr>]"
    by (simp_all add: py_getitem_def)
  have f: "kfold two_fold_split 2 ?anns
      = Inr [([\<lparr>id_ano = ''a'', label_ids = [2, 5]\<rparr>], [\<lparr>id_ano = ''a'', label_ids = [2, 5]\<rparr>]),
             ([\<lparr>id_ano = ''b'', label_ids = [7]\<rparr>], [\<lparr>id_ano = ''b'', label_ids = [7]\<rparr>])]"
    unfolding k using sel by simp
  from kfold_train_equals_test[OF f] f show ?thesis by simp
qed

section \<open>Claims about the construction of the modules\<close>

lemma Conv2d_init_ok:
  "0 < groups \<Longrightarrow> in_channels mod groups = 0 \<Longrightarrow> out_channels mod groups = 0 \<Longrightarrow>
   0 \<le> in_channels \<Longrightarrow> 0 \<le> out_channels \<Longrightarrow> 0 \<le> kernel_size \<Longrightarrow>
   Conv2d_init in_channels out_channels kernel_size padding dilation strd groups bias
     = Inr (Conv2d in_channels out_channels kernel_size padding dilation strd groups bias)"
  by (simp add: Conv2d_init_def)

lemma Conv2d_init_Inr:
  "Conv2d_init in_channels out_channels kernel_size padding dilation strd groups bias = Inr c \<Longrightarrow>
   c = Conv2d in_channels out_channels kernel_size padding dilation strd groups bias"
  by (simp add: Conv2d_init_def split: if_splits)

lemma ConvBR2d_init_ok:
  "0 < groups \<Longrightarrow> in_channels mod groups = 0 \<Longrightarrow> out_channels mod groups = 0 \<Longrightarrow>
   0 \<le> in_channels \<Longrightarrow> 0 \<le> out_channels \<Longrightarrow> 0 \<le> kernel_size \<Longrightarrow>
   ConvBR2d_init in_channels out_channels kernel_size padding dilation strd groups act
     = Inr \<lparr>conv = Conv2d in_channels out_channels kernel_size padding dilation strd groups False,
            bn = BatchNorm2d out_channels, is_activation = act\<rparr>"
  by (simp add: ConvBR2d_init_def Conv2d_init_ok BatchNorm2d_init_def)

lemma ConvBR2d_init_Inr:
  "ConvBR2d_init in_channels out_channels kernel_size padding dilation strd groups act = Inr m \<Longrightarrow>
   conv m = Conv2d in_channels out_channels kernel_size padding dilation strd groups False"
  by (auto simp: ConvBR2d_init_def BatchNorm2d_init_def split: sum.splits if_splits
           dest: Conv2d_init_Inr)

text \<open>
  C8 (amended). The constructor of the channel attention module checks no
  divisibility: for every channel count \<open>C\<close> and reduction with
  \<open>0 < reduction \<le> C\<close>, whether or not \<open>reduction\<close> divides \<open>C\<close>, construction
  succeeds and the module projects \<open>C \<rightarrow> \<lfloor>C / reduction\<rfloor> \<rightarrow> C\<close>: its forward
  pass runs global average pooling, the first projection, the rectifier, the
  second projection and the sigmoid, and multiplies the resulting gate into
  the input, which keeps the input's shape. A zero reduction fails with
  \<open>ZeroDivisionError\<close>.
\<close>

theorem CSEModule_construction:
  assumes "0 < reduction" and "reduction \<le> C"
  shows "CSEModule_init C reduction =
           Inr \<lparr>se_layers = [AdaptiveAvgPool2d 1, Conv2d C (C div reduction) 1 0 1 1 1 True, ReLU,
                              Conv2d (C div reduction) C 1 0 1 1 1 True, Sigmoid]\<rparr> \<and>
         CSEModule_init C 0 = Inl ZeroDivisionError \<and>
         (\<forall>m. CSEModule_init C reduction = Inr m \<longrightarrow>
            CSEModule_forward B m x =
              bind_res
                (bind_res (bind_res (bind_res (bind_res
                   (run_layer B (AdaptiveAvgPool2d 1) x)
                   (run_layer B (Conv2d C (C div reduction) 1 0 1 1 1 True)))
                   (run_layer B ReLU))
                   (run_layer B (Conv2d (C div reduction) C 1 0 1 1 1 True)))
                   (run_layer B Sigmoid))
                (tensor_mul B x)) \<and>
         (\<forall>m. CSEModule_init C reduction = Inr m \<longrightarrow> 0 < h \<and> 0 < w' \<longrightarrow>
            CSEModule_forward (shape_backend training) m (b, nat C, h, w') = Inr (b, nat C, h, w'))"
proof -
  from assms have c: "0 < C" "0 \<le> C div reduction" "0 < C div reduction"
    by (simp_all add: pos_imp_zdiv_nonneg_iff pos_imp_zdiv_pos_iff)
  have init: "CSEModule_init C reduction =
      Inr \<lparr>se_layers = [AdaptiveAvgPool2d 1, Conv2d C (C div reduction) 1 0 1 1 1 True, ReLU,
                         Conv2d (C div reduction) C 1 0 1 1 1 True, Sigmoid]\<rparr>"
    using assms c by (simp add: CSEModule_init_def Conv2d_init_ok)
  have zero: "CSEModule_init C 0 = Inl ZeroDivisionError" by (simp add: CSEModule_init_def)
  have fwd: "CSEModule_forward B
        \<lparr>se_layers = [AdaptiveAvgPool2d 1, Conv2d C (C div reduction) 1 0 1 1 1 True, ReLU,
                       Conv2d (C div reduction) C 1 0 1 1 1 True, Sigmoid]\<rparr> x =
      bind_res
        (bind_res (bind_res (bind_res (bind_res
           (run_layer B (AdaptiveAvgPool2d 1) x)
           (run_layer B (Conv2d C (C div reduction) 1 0 1 1 1 True)))
           (run_layer B ReLU))
           (run_layer B (Conv2d (C div reduction) C 1 0 1 1 1 True)))
           (run_layer B Sigmoid))
        (tensor_mul B x)"
    by (simp add: CSEModule_forward_def bind_res_def split: sum.splits)
  have shp: "0 < h \<and> 0 < w' \<longrightarrow> CSEModule_forward (shape_backend training)
        \<lparr>se_layers = [AdaptiveAvgPool2d 1, Conv2d C (C div reduction) 1 0 1 1 1 True, ReLU,
                       Conv2d (C div reduction) C 1 0 1 1 1 True, Sigmoid]\<rparr> (b, nat C, h, w')
      = Inr (b, nat C, h, w')"
    using c by (simp add: CSEModule_forward_def shape_backend_def conv_out_size_def
                  compatible_dim_def broadcast_dim_def)
  from init zero fwd shp show ?thesis by simp
qed

theorem CSEModule_construction_witness:
  "(0::int) < 16 \<and> (16::int) \<le> 1039 \<and>
   CSEModule_init 1039 16 =
     Inr \<lparr>se_layers = [AdaptiveAvgPool2d 1, Conv2d 1039 64 1 0 1 1 1 True, ReLU,
                        Conv2d 64 1039 1 0 1 1 1 True, Sigmoid]\<rparr> \<and>
   CSEModule_forward (shape_backend False)
     \<lparr>se_layers = [AdaptiveAvgPool2d 1, Conv2d 1039 64 1 0 1 1 1 True, ReLU,
                    Conv2d 64 1039 1 0 1 1 1 True, Sigmoid]\<rparr> (2, 1039, 8, 8) = Inr (2, 1039, 8, 8)"
proof -
  have h: "(0::int) < 16" "(16::int) \<le> 1039" by simp_all
  note t = CSEModule_construction[OF h, of "shape_backend False" "(2, 1039, 8, 8)" 8 8 False 2]
  from t have i: "CSEModule_init 1039 16 =
      Inr \<lparr>se_layers = [AdaptiveAvgPool2d 1, Conv2d 1039 64 1 0 1 1 1 True, ReLU,
                         Conv2d 64 1039 1 0 1 1 1 True, Sigmoid]\<rparr>"
    by simp
  from t have "\<forall>m. CSEModule_init 1039 16 = Inr m \<longrightarrow> 0 < (8::nat) \<and> 0 < (8::nat) \<longrightarrow>
      CSEModule_forward (shape_backend False) m (2, nat 1039, 8, 8) = Inr (2, nat 1039, 8, 8)"
    by blast
  with i have "CSEModule_forward (shape_backend False)
      \<lparr>se_layers = [AdaptiveAvgPool2d 1, Conv2d 1039 64 1 0 1 1 1 True, ReLU,
                     Conv2d 64 1039 1 0 1 1 1 True, Sigmoid]\<rparr> (2, 1039, 8, 8) = Inr (2, 1039, 8, 8)"
    by simp
  with i h show ?thesis by simp
qed

text \<open>
  The claim as stated fails: 10 is not divisible by 3, yet the module is
  constructed, with the projections \<open>10 \<rightarrow> 3 \<rightarrow> 10\<close>.
\<close>

theorem CSEModule_indivisible_counterexample:
  "CSEModule_init 10 3 =
     Inr \<lparr>se_layers = [AdaptiveAvgPool2d 1, Conv2d 10 3 1 0 1 1 1 True, ReLU,
                        Conv2d 3 10 1 0 1 1 1 True, Sigmoid]\<rparr>"
  by (simp add: CSEModule_init_def Conv2d_init_def)

lemma SENextBottleneck_init_channels:
  assumes "SENextBottleneck_init in_channels out_channels strd groups reduction pool_arg is_sc = Inr m"
  shows "block_in_channels m = in_channels" and "block_out_channels m = out_channels"
proof -
  from assms obtain c1 c2 c3 where
    c1: "ConvBR2d_init in_channels (groups * (out_channels div 2 div groups)) 1 0 1 1 1 True = Inr c1"
    and c3: "ConvBR2d_init (groups * (out_channels div 2 div groups)) out_channels 1 0 1 1 1 False = Inr c3"
    and m: "conv1 m = c1" "conv3 m = c3"
    by (auto simp: SENextBottleneck_init_def Let_def split: if_splits sum.splits)
  show "block_in_channels m = in_channels"
    using ConvBR2d_init_Inr[OF c1] m by (simp add: block_in_channels_def)
  show "block_out_channels m = out_channels"
    using ConvBR2d_init_Inr[OF c3] m by (simp add: block_out_channels_def)
qed

lemma make_layers_schedule:
  "make_layers w diff depth is = Inr bs \<Longrightarrow>
   map (\<lambda>b. (block_in_channels b, block_out_channels b)) bs
     = map (\<lambda>i. (w + diff * i div depth, w + diff * (i + 1) div depth)) is"
proof (induction "is" arbitrary: bs)
  case Nil
  then show ?case by simp
next
  case (Cons i rest)
  from Cons.prems obtain b bs' where
    b: "SENextBottleneck_init (w + diff * i div depth) (w + diff * (i + 1) div depth)
          1 (w div depth) 16 PoolMax False = Inr b"
    and r: "make_layers w diff depth rest = Inr bs'" and bs: "bs = b # bs'"
    by (auto split: sum.splits)
  show ?case
    using Cons.IH[OF r] SENextBottleneck_init_channels[OF b] bs by simp
qed

text \<open>
  The schedule of every backbone that the constructor returns: block \<open>i\<close> goes
  from \<open>width + diff\<cdot>i // depth\<close> to \<open>width + diff\<cdot>(i+1) // depth\<close> channels, with
  \<open>diff = |out_channels - width|\<close>.
\<close>

lemma SEResNeXt_schedule_formula:
  assumes "SEResNeXt_init in_channels out_channels depth w = Inr m"
  shows "channel_schedule m =
           map (\<lambda>i. (w + \<bar>out_channels - w\<bar> * i div depth,
                      w + \<bar>out_channels - w\<bar> * (i + 1) div depth)) (py_range depth)"
proof -
  from assms obtain bs where
    bs: "make_layers w \<bar>out_channels - w\<bar> depth (py_range depth) = Inr bs" and m: "layer m = bs"
    by (auto simp: SEResNeXt_init_def Let_def split: sum.splits)
  from make_layers_schedule[OF bs] m show ?thesis by (simp add: channel_schedule_def)
qed

lemma py_range_last: "0 < depth \<Longrightarrow> last (py_range depth) = depth - 1"
proof -
  assume d: "0 < depth"
  then have "[0..<nat depth] \<noteq> []" by simp
  then have "last (map int [0..<nat depth]) = int (last [0..<nat depth])" by (rule last_map)
  also have "last [0..<nat depth] = nat depth - 1" using d by (simp add: last_upt)
  finally show ?thesis using d by (simp add: py_range_def)
qed

text \<open>
  In every constructed backbone the first block consumes \<open>width\<close> channels,
  every block consumes what its predecessor produces, and the last block
  produces \<open>width + |out_channels - width|\<close> channels: that is \<open>out_channels\<close>
  when \<open>out_channels \<ge> width\<close>, and \<open>2\<cdot>width - out_channels\<close> otherwise.
\<close>

lemma SEResNeXt_schedule_properties:
  assumes "SEResNeXt_init in_channels out_channels depth w = Inr m" and "0 < depth"
  shows "length (channel_schedule m) = nat depth"
    and "fst (channel_schedule m ! 0) = w"
    and "\<forall>i. Suc i < nat depth \<longrightarrow> snd (channel_schedule m ! i) = fst (channel_schedule m ! Suc i)"
    and "snd (last (channel_schedule m)) = w + \<bar>out_channels - w\<bar>"
proof -
  note f = SEResNeXt_schedule_formula[OF assms(1)]
  show "length (channel_schedule m) = nat depth" by (simp add: f py_range_def)
  show "fst (channel_schedule m ! 0) = w" using assms(2) by (simp add: f py_range_def)
  show "\<forall>i. Suc i < nat depth \<longrightarrow> snd (channel_schedule m ! i) = fst (channel_schedule m ! Suc i)"
    by (simp add: f py_range_def add.commute)
  have ne: "py_range depth \<noteq> []" using assms(2) by (simp add: py_range_def)
  have "snd (last (channel_schedule m)) = w + \<bar>out_channels - w\<bar> * (last (py_range depth) + 1) div depth"
    unfolding f using ne by (simp add: last_map)
  also have "\<dots> = w + \<bar>out_channels - w\<bar>" using assms(2) by (simp add: py_range_last)
  finally show "snd (last (channel_schedule m)) = w + \<bar>out_channels - w\<bar>" .
qed

text \<open>
  C2, the code at a narrowing configuration. For \<open>start_width = 64\<close>,
  \<open>output_width = 1\<close> and \<open>depth = 2\<close> the backbone is constructed with the
  schedule \<open>64 \<rightarrow> 95 \<rightarrow> 127\<close>: the first block starts at the start width and the
  blocks are contiguous, but the last block produces 127 channels, not the
  configured output width 1.
\<close>

theorem narrowing_schedule_misses_output_width:
  "SEResNeXt_schedule 3 1 2 64 = Inr [(64, 95), (95, 127)]"
  by (simp add: SEResNeXt_schedule_def SEResNeXt_init_def channel_schedule_def py_range_def
        SENextBottleneck_init_def ConvBR2d_init_def Conv2d_init_def BatchNorm2d_init_def
        CSEModule_init_def block_in_channels_def block_out_channels_def numeral_2_eq_2)

text \<open>
  C7 (amended). For a positive input channel count and start width, backbone
  construction with \<open>depth = 0\<close> (or any depth below 1) does not fail: no block
  is constructed and \<open>width // depth\<close> is never evaluated, so the result is a
  backbone that consists of the initial convolution unit and an empty block
  stack. With \<open>depth > 0\<close> and \<open>start_width // depth = 0\<close> construction fails,
  before any forward pass, with the \<open>ZeroDivisionError\<close> of the first block's
  \<open>mid_channels\<close> computation.
\<close>

theorem SEResNeXt_degenerate_configurations:
  assumes "0 < in_channels" and "0 < w"
  shows "(depth \<le> 0 \<longrightarrow>
            SEResNeXt_init in_channels out_channels depth w =
              Inr \<lparr>in_conv = \<lparr>conv = Conv2d in_channels w 1 0 1 1 1 False,
                               bn = BatchNorm2d w, is_activation = False\<rparr>,
                   layer = []\<rparr>) \<and>
         (0 < depth \<and> w div depth = 0 \<longrightarrow>
            SEResNeXt_init in_channels out_channels depth w = Inl ZeroDivisionError)"
proof (intro conjI impI)
  have ic: "ConvBR2d_init in_channels w 1 0 1 1 1 False =
      Inr \<lparr>conv = Conv2d in_channels w 1 0 1 1 1 False, bn = BatchNorm2d w, is_activation = False\<rparr>"
    using assms by (simp add: ConvBR2d_init_ok)
  {
    assume "depth \<le> 0"
    then have "py_range depth = []" by (simp add: py_range_def)
    then show "SEResNeXt_init in_channels out_channels depth w =
        Inr \<lparr>in_conv = \<lparr>conv = Conv2d in_channels w 1 0 1 1 1 False,
                         bn = BatchNorm2d w, is_activation = False\<rparr>,
             layer = []\<rparr>"
      by (simp add: SEResNeXt_init_def ic)
  }
  {
    assume d: "0 < depth \<and> w div depth = 0"
    then obtain rest where r: "py_range depth = 0 # rest"
      by (cases "py_range depth") (auto simp: py_range_def upt_conv_Cons)
    have "make_layers w \<bar>out_channels - w\<bar> depth (py_range depth) = Inl ZeroDivisionError"
      using d by (simp add: r SENextBottleneck_init_def)
    then show "SEResNeXt_init in_channels out_channels depth w = Inl ZeroDivisionError"
      by (simp add: SEResNeXt_init_def ic)
  }
qed

theorem SEResNeXt_degenerate_configurations_witness:
  "(0::int) < 3 \<and> (0::int) < 1 \<and> (0::int) \<le> 0 \<and> (0::int) < 2 \<and> (1::int) div 2 = 0 \<and>
   SEResNeXt_init 3 3474 0 1 =
     Inr \<lparr>in_conv = \<lparr>conv = Conv2d 3 1 1 0 1 1 1 False, bn = BatchNorm2d 1, is_activation = False\<rparr>,
          layer = []\<rparr> \<and>
   SEResNeXt_init 3 3474 2 1 = Inl ZeroDivisionError"
proof -
  have h: "(0::int) < 3" "(0::int) < 1" by simp_all
  from SEResNeXt_degenerate_configurations[OF h, of 0 3474]
  have a: "SEResNeXt_init 3 3474 0 1 =
     Inr \<lparr>in_conv = \<lparr>conv = Conv2d 3 1 1 0 1 1 1 False, bn = BatchNorm2d 1, is_activation = False\<rparr>,
          layer = []\<rparr>"
    by simp
  from SEResNeXt_degenerate_configurations[OF h, of 2 3474]
  have b: "SEResNeXt_init 3 3474 2 1 = Inl ZeroDivisionError" by simp
  from a b show ?thesis by simp
qed

text \<open>
  The claim as stated fails: with \<open>depth = 0\<close> the constructor returns a
  backbone, with no block.
\<close>

theorem zero_depth_constructs_counterexample:
  "SEResNeXt_init 3 3474 0 1024 =
     Inr \<lparr>in_conv = \<lparr>conv = Conv2d 3 1024 1 0 1 1 1 False, bn = BatchNorm2d 1024,
                      is_activation = False\<rparr>,
          layer = []\<rparr>"
  by (simp add: SEResNeXt_init_def ConvBR2d_init_def Conv2d_init_def BatchNorm2d_init_def
        py_range_def)

section \<open>Claims about the bottleneck block\<close>

lemma forward_refines_spec: "SENextBottleneck_forward B m x = spec_forward B m x"
  by (simp add: SENextBottleneck_forward_def spec_forward_def main_branch_def
        shortcut_branch_def pool_if_stride_def bind_res_def
      split: sum.splits option.splits)

lemma ConvBR2d_init_full:
  "ConvBR2d_init in_channels out_channels kernel_size padding dilation strd groups act = Inr m \<Longrightarrow>
   m = \<lparr>conv = Conv2d in_channels out_channels kernel_size padding dilation strd groups False,
        bn = BatchNorm2d out_channels, is_activation = act\<rparr>"
  by (auto simp: ConvBR2d_init_def BatchNorm2d_init_def split: sum.splits if_splits
           dest: Conv2d_init_Inr)

lemma CSEModule_init_full:
  "CSEModule_init C reduction = Inr m \<Longrightarrow>
   m = \<lparr>se_layers = [AdaptiveAvgPool2d 1, Conv2d C (C div reduction) 1 0 1 1 1 True, ReLU,
                     Conv2d (C div reduction) C 1 0 1 1 1 True, Sigmoid]\<rparr>"
  by (auto simp: CSEModule_init_def split: sum.splits if_splits dest: Conv2d_init_Inr)

lemma SENextBottleneck_init_parts:
  assumes "SENextBottleneck_init in_channels out_channels strd groups reduction pool_arg is_sc = Inr m"
  shows "conv1 m = \<lparr>conv = Conv2d in_channels (groups * (out_channels div 2 div groups)) 1 0 1 1 1 False,
                    bn = BatchNorm2d (groups * (out_channels div 2 div groups)), is_activation = True\<rparr>"
    and "conv2 m = \<lparr>conv = Conv2d (groups * (out_channels div 2 div groups))
                             (groups * (out_channels div 2 div groups)) 3 1 1 1 groups False,
                    bn = BatchNorm2d (groups * (out_channels div 2 div groups)), is_activation = True\<rparr>"
    and "conv3 m = \<lparr>conv = Conv2d (groups * (out_channels div 2 div groups)) out_channels 1 0 1 1 1 False,
                    bn = BatchNorm2d out_channels, is_activation = False\<rparr>"
    and "se m = \<lparr>se_layers = [AdaptiveAvgPool2d 1,
                              Conv2d out_channels (out_channels div reduction) 1 0 1 1 1 True, ReLU,
                              Conv2d (out_channels div reduction) out_channels 1 0 1 1 1 True,
                              Sigmoid]\<rparr>"
    and "stride m = strd" and "is_shortcut m = is_sc"
proof -
  let ?mid = "groups * (out_channels div 2 div groups)"
  from assms obtain c1 c2 c3 a where
    c1: "ConvBR2d_init in_channels ?mid 1 0 1 1 1 True = Inr c1"
    and c2: "ConvBR2d_init ?mid ?mid 3 1 1 1 groups True = Inr c2"
    and c3: "ConvBR2d_init ?mid out_channels 1 0 1 1 1 False = Inr c3"
    and a: "CSEModule_init out_channels reduction = Inr a"
    and m: "conv1 m = c1" "conv2 m = c2" "conv3 m = c3" "se m = a"
           "stride m = strd" "is_shortcut m = is_sc"
    by (auto simp: SENextBottleneck_init_def Let_def split: if_splits sum.splits)
  show "conv1 m = \<lparr>conv = Conv2d in_channels ?mid 1 0 1 1 1 False,
                    bn = BatchNorm2d ?mid, is_activation = True\<rparr>"
    using ConvBR2d_init_full[OF c1] m by simp
  show "conv2 m = \<lparr>conv = Conv2d ?mid ?mid 3 1 1 1 groups False,
                    bn = BatchNorm2d ?mid, is_activation = True\<rparr>"
    using ConvBR2d_init_full[OF c2] m by simp
  show "conv3 m = \<lparr>conv = Conv2d ?mid out_channels 1 0 1 1 1 False,
                    bn = BatchNorm2d out_channels, is_activation = False\<rparr>"
    using ConvBR2d_init_full[OF c3] m by simp
  show "se m = \<lparr>se_layers = [AdaptiveAvgPool2d 1,
                              Conv2d out_channels (out_channels div reduction) 1 0 1 1 1 True, ReLU,
                              Conv2d (out_channels div reduction) out_channels 1 0 1 1 1 True,
                              Sigmoid]\<rparr>"
    using CSEModule_init_full[OF a] m by simp
  show "stride m = strd" "is_shortcut m = is_sc" using m by simp_all
qed

text \<open>On shapes, the convolution units of the block keep the spatial size.\<close>

lemma ConvBR2d_shape_pointwise:
  assumes "ConvBR2d_forward (shape_backend t)
             \<lparr>conv = Conv2d ci co 1 0 1 1 g False, bn = BatchNorm2d co, is_activation = a\<rparr>
             (b, c, h, w) = Inr s"
  shows "s = (b, nat co, h, w) \<and> int c = ci \<and> 0 < ci \<and> 0 < co"
  using assms
  by (auto simp: ConvBR2d_forward_def shape_backend_def conv_out_size_def
           split: if_splits sum.splits)

lemma ConvBR2d_shape_3x3:
  assumes "ConvBR2d_forward (shape_backend t)
             \<lparr>conv = Conv2d ci co 3 1 1 1 g False, bn = BatchNorm2d co, is_activation = a\<rparr>
             (b, c, h, w) = Inr s"
  shows "s = (b, nat co, h, w) \<and> int c = ci \<and> 0 < ci \<and> 0 < co"
  using assms
  by (auto simp: ConvBR2d_forward_def shape_backend_def conv_out_size_def
           split: if_splits sum.splits)

lemma CSEModule_shape:
  assumes "CSEModule_forward (shape_backend t)
             \<lparr>se_layers = [AdaptiveAvgPool2d 1, Conv2d co cr 1 0 1 1 1 True, ReLU,
                            Conv2d cr co 1 0 1 1 1 True, Sigmoid]\<rparr> (b, c, h, w) = Inr s"
  shows "s = (b, c, h, w)"
  using assms
  by (auto simp: CSEModule_forward_def shape_backend_def conv_out_size_def
                 compatible_dim_def broadcast_dim_def
           split: if_splits sum.splits)

text \<open>
  When the main branch of a constructed block with stride 1 runs, the input has
  \<open>in_channels\<close> channels, the result has \<open>out_channels\<close> channels and the
  input's spatial size, and \<open>out_channels\<close> is at least 2, since
  \<open>mid_channels = groups \<cdot> (out_channels // 2 // groups)\<close> must not be 0.
\<close>

lemma main_branch_shape:
  assumes init: "SENextBottleneck_init in_channels out_channels strd groups reduction pool_arg is_sc = Inr m"
    and strd: "strd \<le> 1"
    and run: "main_branch (shape_backend t) m (b, c, h, w) = Inr s"
  shows "s = (b, nat out_channels, h, w) \<and> int c = in_channels \<and> 2 \<le> out_channels"
proof -
  note p = SENextBottleneck_init_parts[OF init]
  let ?mid = "groups * (out_channels div 2 div groups)"
  from run obtain s1 s2 s4 where
    s1: "ConvBR2d_forward (shape_backend t) (conv1 m) (b, c, h, w) = Inr s1"
    and s2: "ConvBR2d_forward (shape_backend t) (conv2 m) s1 = Inr s2"
    and s4: "ConvBR2d_forward (shape_backend t) (conv3 m) s2 = Inr s4"
    and s: "CSEModule_forward (shape_backend t) (se m) s4 = Inr s"
    using strd p(5)
    by (auto simp: main_branch_def bind_res_def pool_if_stride_def split: sum.splits)
  from s1 have e1: "s1 = (b, nat ?mid, h, w)" "int c = in_channels" "0 < ?mid"
    unfolding p(1) by (auto dest: ConvBR2d_shape_pointwise)
  from s2 have e2: "s2 = (b, nat ?mid, h, w)"
    unfolding p(2) e1 by (auto dest: ConvBR2d_shape_3x3)
  from s4 have e4: "s4 = (b, nat out_channels, h, w)" "0 < out_channels"
    unfolding p(3) e2 by (auto dest: ConvBR2d_shape_pointwise)
  from s have "s = (b, nat out_channels, h, w)"
    unfolding p(4) e4 by (rule CSEModule_shape)
  moreover have "2 \<le> out_channels"
  proof (rule ccontr)
    assume "\<not> 2 \<le> out_channels"
    with e4(2) have "out_channels = 1" by simp
    then have "?mid = 0" by simp
    with e1(3) show False by simp
  qed
  ultimately show ?thesis using e1(2) by simp
qed

lemma forward_without_shortcut_shape:
  assumes "\<not> is_shortcut m" and "main_branch (shape_backend t) m xs = Inr s"
  shows "SENextBottleneck_forward (shape_backend t) m xs = broadcast_shapes xs s"
  using assms
  by (simp add: forward_refines_spec spec_forward_def shortcut_branch_def bind_res_def
        shape_backend_def split: sum.splits)

lemma broadcast_channels:
  "c' \<noteq> 1 \<Longrightarrow>
   broadcast_shapes (b, c, h, w) (b, c', h, w) =
     (if c = c' \<or> c = 1 then Inr (b, c', h, w) else Inl RuntimeError)"
  by (simp add: compatible_dim_def broadcast_dim_def)

text \<open>
  C1 (amended). For every bottleneck block, on any tensor backend,
  \<open>forward(x)\<close> computes
  \<open>relu(shortcut_branch + attend(expand(pool_if_stride>1(transform(compress(x))))))\<close>,
  the pooling step being applied between transform and expand only when
  \<open>stride > 1\<close>; the shortcut branch is the raw input \<open>x\<close> when \<open>has_shortcut\<close> is
  false, and the projection of \<open>x\<close>, average-pooled by \<open>stride\<close> first if
  \<open>stride > 1\<close>, when it is true. When \<open>has_shortcut\<close> is false the residual add
  is the library's broadcasting add of \<open>x\<close> and the main branch \<open>s\<close>: it succeeds
  exactly when, in every dimension, the two sizes are equal or one of them is 1,
  and is a fatal shape error (\<open>RuntimeError\<close>) otherwise. For a constructed block
  with stride 1 whose main branch runs, the main branch has \<open>out_channels\<close>
  channels, at least 2, and the input's spatial size, so the add succeeds
  exactly when \<open>in_channels = out_channels\<close> or \<open>in_channels = 1\<close>, the single
  input channel being broadcast over the output channels.
\<close>

theorem SENextBottleneck_forward_composition:
  "SENextBottleneck_forward B m x = spec_forward B m x \<and>
   (\<not> is_shortcut m \<longrightarrow> shortcut_branch B m x = Inr x) \<and>
   (is_shortcut m \<longrightarrow>
      shortcut_branch B m x =
        bind_res (if stride m > 1 then F_avg_pool2d B x (stride m) (stride m) else Inr x)
                 (\<lambda>x'. case shortcut m of
                          None \<Rightarrow> Inl AttributeError
                        | Some sc \<Rightarrow> ConvBR2d_forward B sc x')) \<and>
   (\<not> is_shortcut m \<longrightarrow> main_branch (shape_backend t) m xs = Inr s \<longrightarrow>
      SENextBottleneck_forward (shape_backend t) m xs =
        (if broadcastable xs s then broadcast_shapes xs s else Inl RuntimeError)) \<and>
   (SENextBottleneck_init in_channels out_channels strd groups reduction pool_arg False = Inr m' \<longrightarrow>
    strd \<le> 1 \<longrightarrow> main_branch (shape_backend t) m' (b, c, h, w) = Inr s' \<longrightarrow>
      int c = in_channels \<and> 2 \<le> out_channels \<and> s' = (b, nat out_channels, h, w) \<and>
      SENextBottleneck_forward (shape_backend t) m' (b, c, h, w) =
        (if in_channels = out_channels \<or> in_channels = 1
         then Inr (b, nat out_channels, h, w)
         else Inl RuntimeError))"
proof (intro conjI impI)
  show "SENextBottleneck_forward B m x = spec_forward B m x" by (rule forward_refines_spec)
next
  assume "\<not> is_shortcut m"
  then show "shortcut_branch B m x = Inr x" by (simp add: shortcut_branch_def)
next
  assume "is_shortcut m"
  then show "shortcut_branch B m x =
      bind_res (if stride m > 1 then F_avg_pool2d B x (stride m) (stride m) else Inr x)
               (\<lambda>x'. case shortcut m of
                        None \<Rightarrow> Inl AttributeError
                      | Some sc \<Rightarrow> ConvBR2d_forward B sc x')"
    by (simp add: shortcut_branch_def)
next
  assume "\<not> is_shortcut m" and "main_branch (shape_backend t) m xs = Inr s"
  then have "SENextBottleneck_forward (shape_backend t) m xs = broadcast_shapes xs s"
    by (rule forward_without_shortcut_shape)
  then show "SENextBottleneck_forward (shape_backend t) m xs =
      (if broadcastable xs s then broadcast_shapes xs s else Inl RuntimeError)"
    by (cases xs; cases s) auto
next
  assume i: "SENextBottleneck_init in_channels out_channels strd groups reduction pool_arg False = Inr m'"
    and st: "strd \<le> 1" and r: "main_branch (shape_backend t) m' (b, c, h, w) = Inr s'"
  from main_branch_shape[OF i st r]
  show c: "int c = in_channels" and o: "2 \<le> out_channels"
    and s': "s' = (b, nat out_channels, h, w)" by simp_all
  have "\<not> is_shortcut m'" using SENextBottleneck_init_parts(6)[OF i] by simp
  from forward_without_shortcut_shape[OF this r]
  have "SENextBottleneck_forward (shape_backend t) m' (b, c, h, w) =
      broadcast_shapes (b, c, h, w) (b, nat out_channels, h, w)"
    unfolding s' .
  also have "\<dots> = (if c = nat out_channels \<or> c = 1
                     then Inr (b, nat out_channels, h, w) else Inl RuntimeError)"
    using o by (intro broadcast_channels) simp
  also have "(c = nat out_channels \<or> c = 1) \<longleftrightarrow> (in_channels = out_channels \<or> in_channels = 1)"
    using c o by auto
  finally show "SENextBottleneck_forward (shape_backend t) m' (b, c, h, w) =
      (if in_channels = out_channels \<or> in_channels = 1
       then Inr (b, nat out_channels, h, w)
       else Inl RuntimeError)" .
qed

lemma call_example_init:
  "SENextBottleneck_init 64 64 1 32 16 PoolMax False =
     Inr \<lparr>conv1 = \<lparr>conv = Conv2d 64 32 1 0 1 1 1 False, bn = BatchNorm2d 32, is_activation = True\<rparr>,
          conv2 = \<lparr>conv = Conv2d 32 32 3 1 1 1 32 False, bn = BatchNorm2d 32, is_activation = True\<rparr>,
          conv3 = \<lparr>conv = Conv2d 32 64 1 0 1 1 1 False, bn = BatchNorm2d 64, is_activation = False\<rparr>,
          se = \<lparr>se_layers = [AdaptiveAvgPool2d 1, Conv2d 64 4 1 0 1 1 1 True, ReLU,
                              Conv2d 4 64 1 0 1 1 1 True, Sigmoid]\<rparr>,
          stride = 1, is_shortcut = False, shortcut = None, pool = None\<rparr>"
  by (simp add: SENextBottleneck_init_def ConvBR2d_init_def Conv2d_init_def BatchNorm2d_init_def
        CSEModule_init_def)

theorem SENextBottleneck_forward_composition_witness:
  "(1::int) \<le> 1 \<and>
   SENextBottleneck_call (shape_backend True) 64 64 1 32 16 PoolMax False (2, 64, 4, 4)
     = Inr (2, 64, 4, 4)"
proof -
  let ?m = "\<lparr>conv1 = \<lparr>conv = Conv2d 64 32 1 0 1 1 1 False, bn = BatchNorm2d 32, is_activation = True\<rparr>,
          conv2 = \<lparr>conv = Conv2d 32 32 3 1 1 1 32 False, bn = BatchNorm2d 32, is_activation = True\<rparr>,
          conv3 = \<lparr>conv = Conv2d 32 64 1 0 1 1 1 False, bn = BatchNorm2d 64, is_activation = False\<rparr>,
          se = \<lparr>se_layers = [AdaptiveAvgPool2d 1, Conv2d 64 4 1 0 1 1 1 True, ReLU,
                              Conv2d 4 64 1 0 1 1 1 True, Sigmoid]\<rparr>,
          stride = 1, is_shortcut = False, shortcut = None, pool = None\<rparr>"
  have mb: "main_branch (shape_backend True) ?m (2, 64, 4, 4) = Inr (2, 64, 4, 4)"
    by (simp add: main_branch_def bind_res_def pool_if_stride_def ConvBR2d_forward_def
          CSEModule_forward_def shape_backend_def conv_out_size_def compatible_dim_def
          broadcast_dim_def)
  have st: "(1::int) \<le> 1" by simp
  note t = SENextBottleneck_forward_composition[of "shape_backend True" ?m "(2, 64, 4, 4)" True
        "(2, 64, 4, 4)" "(2, 64, 4, 4)" 64 64 1 32 16 PoolMax ?m 2 64 4 4 "(2, 64, 4, 4)"]
  from t have "SENextBottleneck_init 64 64 1 32 16 PoolMax False = Inr ?m \<longrightarrow>
      (1::int) \<le> 1 \<longrightarrow> main_branch (shape_backend True) ?m (2, 64, 4, 4) = Inr (2, 64, 4, 4) \<longrightarrow>
      SENextBottleneck_forward (shape_backend True) ?m (2, 64, 4, 4) =
        (if (64::int) = 64 \<or> (64::int) = 1
         then Inr (2, nat 64, 4, 4)
         else Inl RuntimeError)"
    by blast
  with call_example_init st mb
  have "SENextBottleneck_forward (shape_backend True) ?m (2, 64, 4, 4) =
        (if (64::int) = 64 \<or> (64::int) = 1
         then Inr (2, nat 64, 4, 4)
         else Inl RuntimeError)"
    by blast
  then have "SENextBottleneck_forward (shape_backend True) ?m (2, 64, 4, 4) = Inr (2, 64, 4, 4)"
    by simp
  with call_example_init show ?thesis by (simp add: SENextBottleneck_call_def)
qed

text \<open>
  The claim as stated fails. A block without shortcut from 1 to 64 channels
  runs on an input with 1 channel: the add broadcasts the input over the 64
  channels of the main branch, and there is no shape error although
  \<open>in_channels \<noteq> out_channels\<close>. A block without shortcut with stride 2 runs on
  a \<open>2\<times>2\<close> input: the main branch is pooled to \<open>1\<times>1\<close>, and the add broadcasts it,
  although the spatial size has changed.
\<close>

theorem residual_add_broadcasts_counterexample:
  "SENextBottleneck_call (shape_backend True) 1 64 1 32 16 PoolMax False (2, 1, 4, 4)
     = Inr (2, 64, 4, 4) \<and>
   SENextBottleneck_call (shape_backend True) 64 64 2 32 16 PoolMax False (2, 64, 2, 2)
     = Inr (2, 64, 2, 2)"
  by (simp add: SENextBottleneck_call_def SENextBottleneck_init_def ConvBR2d_init_def
        Conv2d_init_def BatchNorm2d_init_def CSEModule_init_def SENextBottleneck_forward_def
        ConvBR2d_forward_def CSEModule_forward_def shape_backend_def conv_out_size_def
        compatible_dim_def broadcast_dim_def)

end
